theory Spec2Isabelle
  imports Complex_Main "HOL-Library.Sublist" "HOL-Library.AList"
begin

section \<open>Python values shared by the models\<close>

text \<open>
  Exceptions of the Python sources are values: every \<^verbatim>\<open>raise\<close> of the modelled functions
  is a constructor here, and a function that can raise returns \<open>error + 'a\<close>.
\<close>

datatype error =
    KeysValueError
  | RoleValueError string
  | LayersValueError nat int
  | ImageValueError
  | UnpackValueError
  | RuntimeError
  | IndexError
  | KeyError
  | TypeError

text \<open>
  Boolean-mask indexing of a one-dimensional tensor, \<^verbatim>\<open>t[mask]\<close>: the entries of \<open>t\<close> at
  the positions where the mask is true, in order. torch raises IndexError when the shape of
  the mask differs from the shape of the tensor.
\<close>

definition mask_index :: "'a list \<Rightarrow> bool list \<Rightarrow> error + 'a list" where
  "mask_index t keep =
     (if length keep \<noteq> length t then Inl IndexError
      else Inr (map snd (filter fst (zip keep t))))"

text \<open>Sequencing of a computation that can raise: the exception passes through.\<close>

definition on_value :: "error + 'a \<Rightarrow> ('a \<Rightarrow> error + 'b) \<Rightarrow> error + 'b" where
  "on_value r f = (case r of Inl e \<Rightarrow> Inl e | Inr v \<Rightarrow> f v)"

text \<open>
  A list comprehension \<^verbatim>\<open>[f(x) for x in xs]\<close> whose body can raise: the first exception
  ends it.
\<close>

fun map_raise :: "('a \<Rightarrow> error + 'b) \<Rightarrow> 'a list \<Rightarrow> error + 'b list" where
  "map_raise f [] = Inr []"
| "map_raise f (x # xs) =
     on_value (f x) (\<lambda>y. on_value (map_raise f xs) (\<lambda>ys. Inr (y # ys)))"

section \<open>gpt\_neo/configuration\_gpt\_neo.py: block length and number of blocks\<close>

text \<open>
  \<^verbatim>\<open>torch.max(t)\<close> of a one-dimensional integer tensor; torch raises RuntimeError on an
  empty tensor.
\<close>

fun torch_max :: "int list \<Rightarrow> error + int" where
  "torch_max [] = Inl RuntimeError"
| "torch_max (x # xs) = Inr (fold max xs x)"

text \<open>
  The tensors of the function hold 64-bit integers. A Python integer that torch takes as a
  scalar (the bound of \<^verbatim>\<open>torch.arange\<close>, the dividend of \<^verbatim>\<open>torch.remainder\<close> and of
  \<^verbatim>\<open>torch.div\<close>) has to fit into one: outside of \<open>[-2^63, 2^63)\<close> torch raises
  RuntimeError.
\<close>

definition int64_scalar :: "int \<Rightarrow> error + int" where
  "int64_scalar x =
     (if - 9223372036854775808 \<le> x \<and> x < 9223372036854775808 then Inr x
      else Inl RuntimeError)"

text \<open>
  \<^verbatim>\<open>
  candidates = torch.arange(1, window_size)
  remainders = torch.remainder(seq_length, candidates)
  divisor_indices = remainders == 0
  divisors = candidates[divisor_indices]
  largest_divisor = torch.max(divisors)
  return largest_divisor, torch.div(seq_length, largest_divisor, rounding_mode="floor")
  \<close>
  \<^verbatim>\<open>torch.remainder\<close> takes the sign of the divisor, as \<open>mod\<close> on \<open>int\<close> does, and the
  candidates are positive; a remainder and a quotient by a positive candidate stay within
  64 bits. For \<open>window_size \<le> 1\<close> there is no candidate (torch raises RuntimeError, in
  \<^verbatim>\<open>arange\<close> for a bound below 1 and in \<^verbatim>\<open>max\<close> for the empty tensor). The memory
  that the tensor of the candidates takes is not modelled.
\<close>

definition custom_get_block_length_and_num_blocks :: "int \<Rightarrow> int \<Rightarrow> error + (int \<times> int)" where
  "custom_get_block_length_and_num_blocks seq_length window_size =
     on_value (int64_scalar window_size) (\<lambda>bound.
       let candidates = [1..bound - 1] in
       on_value (int64_scalar seq_length) (\<lambda>dividend.
         let remainders = map (\<lambda>c. dividend mod c) candidates;
             divisor_indices = map (\<lambda>r. r = 0) remainders
         in
         on_value (mask_index candidates divisor_indices) (\<lambda>divisors.
         on_value (torch_max divisors) (\<lambda>largest_divisor.
           Inr (largest_divisor, dividend div largest_divisor)))))"

section \<open>agents/llm\_engine.py: removing stop sequences from the LLM output\<close>

text \<open>
  Python slices of a sequence with one bound: \<^verbatim>\<open>s[i:]\<close> and \<^verbatim>\<open>s[:j]\<close>. A negative
  bound counts from the end, and a bound outside the sequence is clamped (\<open>nat\<close> of a
  negative number is 0, \<open>drop\<close> and \<open>take\<close> beyond the length stop at the length).
\<close>

definition py_slice_from :: "int \<Rightarrow> 'a list \<Rightarrow> 'a list" where
  "py_slice_from i s = drop (nat (if i < 0 then int (length s) + i else i)) s"

definition py_slice_to :: "int \<Rightarrow> 'a list \<Rightarrow> 'a list" where
  "py_slice_to j s = take (nat (if j < 0 then int (length s) + j else j)) s"

text \<open>
  The body of the loop of both engines:
  \<^verbatim>\<open>
  if response[-len(stop_seq) :] == stop_seq:
      response = response[: -len(stop_seq)]
  \<close>
\<close>

definition remove_stop_seq :: "string \<Rightarrow> string \<Rightarrow> string" where
  "remove_stop_seq response stop_seq =
     (if py_slice_from (- int (length stop_seq)) response = stop_seq
      then py_slice_to (- int (length stop_seq)) response
      else response)"

text \<open>
  \<^verbatim>\<open>HfApiEngine.__call__\<close>, from the line that reads the content of the first choice:
  \<^verbatim>\<open>
  for stop_seq in stop_sequences:
      if response[-len(stop_seq) :] == stop_seq:
          response = response[: -len(stop_seq)]
  return response
  \<close>
\<close>

fun HfApiEngine_remove_stop_sequences :: "string \<Rightarrow> string list \<Rightarrow> string" where
  "HfApiEngine_remove_stop_sequences response [] = response"
| "HfApiEngine_remove_stop_sequences response (stop_seq # stop_sequences) =
     HfApiEngine_remove_stop_sequences (remove_stop_seq response stop_seq) stop_sequences"

text \<open>
  \<^verbatim>\<open>TransformersEngine.__call__\<close> has the same loop under
  \<^verbatim>\<open>if stop_sequences is not None\<close>; its \<open>stop_sequences\<close> is optional.
\<close>

fun TransformersEngine_loop :: "string \<Rightarrow> string list \<Rightarrow> string" where
  "TransformersEngine_loop response [] = response"
| "TransformersEngine_loop response (stop_seq # stop_sequences) =
     TransformersEngine_loop (remove_stop_seq response stop_seq) stop_sequences"

definition TransformersEngine_remove_stop_sequences :: "string \<Rightarrow> string list option \<Rightarrow> string" where
  "TransformersEngine_remove_stop_sequences response stop_sequences =
     (case stop_sequences of
        None \<Rightarrow> response
      | Some seqs \<Rightarrow> TransformersEngine_loop response seqs)"

text \<open>
  The trimming as the specification words it: one pass over the stop sequences in list
  order; where the current response ends with the stop sequence, that suffix is removed
  once.
\<close>

fun trim_once_per_stop_sequence :: "string \<Rightarrow> string list \<Rightarrow> string" where
  "trim_once_per_stop_sequence response [] = response"
| "trim_once_per_stop_sequence response (stop_seq # rest) =
     trim_once_per_stop_sequence
       (if suffix stop_seq response
        then take (length response - length stop_seq) response
        else response) rest"

section \<open>gpt\_neo/configuration\_gpt\_neo.py: the configuration object\<close>

text \<open>
  The values that the arguments of a configuration take: None, booleans, integers, floats
  (only stored, never computed with; a rational stands for the number), strings and lists.
\<close>

datatype pyval =
    PNone
  | PBool bool
  | PInt int
  | PFloat rat
  | PStr string
  | PList "pyval list"

text \<open>
  A Python object is its attribute dictionary, in insertion order. The class attribute
  \<^verbatim>\<open>attribute_map = {"num_attention_heads": "num_heads", "num_hidden_layers": "num_layers"}\<close>
  of \<^verbatim>\<open>GPTNeoConfig\<close> names two aliases of attributes.
\<close>

type_synonym obj = "(string \<times> pyval) list"

definition attribute_map :: "(string \<times> string) list" where
  "attribute_map =
     [(''num_attention_heads'', ''num_heads''), (''num_hidden_layers'', ''num_layers'')]"

text \<open>
  Modelled from the spec: the superclass \<^verbatim>\<open>PretrainedConfig\<close> (configuration\_utils.py),
  which is not among the sources. The specification calls a configuration object a plain
  attribute bag of hyperparameters: \<^verbatim>\<open>self.name = v\<close> replaces the value of the attribute
  or appends a new one, \<^verbatim>\<open>self.name\<close> reads it, and a name that is a key of
  \<^verbatim>\<open>attribute_map\<close> stands for the attribute that it maps to; the initializer stores the
  two token ids and then every keyword argument as an attribute of the object.
\<close>

definition attribute_name :: "string \<Rightarrow> string" where
  "attribute_name name = (case map_of attribute_map name of Some n \<Rightarrow> n | None \<Rightarrow> name)"

definition setattr :: "obj \<Rightarrow> string \<Rightarrow> pyval \<Rightarrow> obj" where
  "setattr self name v = AList.update (attribute_name name) v self"

definition getattr :: "obj \<Rightarrow> string \<Rightarrow> pyval option" where
  "getattr self name = map_of self (attribute_name name)"

definition PretrainedConfig_init ::
  "obj \<Rightarrow> pyval \<Rightarrow> pyval \<Rightarrow> (string \<times> pyval) list \<Rightarrow> obj" where
  "PretrainedConfig_init self bos_token_id eos_token_id kwargs =
     fold (\<lambda>kv self. setattr self (fst kv) (snd kv)) kwargs
       (setattr (setattr self ''bos_token_id'' bos_token_id) ''eos_token_id'' eos_token_id)"

text \<open>
  \<^verbatim>\<open>
  attentions = []
  for item in attention_types:
      for _ in range(item[1]):
          attentions.extend(item[0])
  return attentions
  \<close>
  An item is a pair of a list of attention types and a repetition count, a Python integer;
  \<^verbatim>\<open>range(n)\<close> is empty for \<open>n \<le> 0\<close>, so the inner loop runs \<open>nat n\<close> times.
\<close>

fun extend_times :: "nat \<Rightarrow> 'a list \<Rightarrow> 'a list \<Rightarrow> 'a list" where
  "extend_times 0 types attentions = attentions"
| "extend_times (Suc n) types attentions = extend_times n types (attentions @ types)"

fun expand_loop :: "('a list \<times> int) list \<Rightarrow> 'a list \<Rightarrow> 'a list" where
  "expand_loop [] attentions = attentions"
| "expand_loop (item # items) attentions =
     expand_loop items (extend_times (nat (snd item)) (fst item) attentions)"

definition expand_attention_types_params :: "('a list \<times> int) list \<Rightarrow> 'a list" where
  "expand_attention_types_params attention_types = expand_loop attention_types []"

text \<open>The arguments of \<^verbatim>\<open>GPTNeoConfig.__init__\<close>, keyword arguments apart.\<close>

record gpt_neo_args =
  vocab_size :: pyval
  max_position_embeddings :: pyval
  hidden_size :: pyval
  num_layers :: int
  attention_types :: "(string list \<times> int) list"
  num_heads :: pyval
  intermediate_size :: pyval
  window_size :: pyval
  activation_function :: pyval
  resid_dropout :: pyval
  embed_dropout :: pyval
  attention_dropout :: pyval
  layer_norm_epsilon :: pyval
  initializer_range :: pyval
  summary_type :: pyval
  summary_use_proj :: pyval
  summary_activation :: pyval
  summary_proj_to_labels :: pyval
  summary_first_dropout :: pyval
  vocab_parallel_embedding :: pyval
  make_vocab_size_divisible_by :: pyval
  use_cache :: pyval
  bos_token_id :: pyval
  eos_token_id :: pyval

text \<open>The list \<^verbatim>\<open>[[types, count], ...]\<close> and a list of strings as Python values.\<close>

definition attention_types_value :: "(string list \<times> int) list \<Rightarrow> pyval" where
  "attention_types_value ats =
     PList (map (\<lambda>item. PList [PList (map PStr (fst item)), PInt (snd item)]) ats)"

definition str_list_value :: "string list \<Rightarrow> pyval" where
  "str_list_value xs = PList (map PStr xs)"

text \<open>
  \<^verbatim>\<open>GPTNeoConfig.__init__\<close>: the assignments in the order of the source, the check of
  the number of layers, and last \<^verbatim>\<open>super().__init__(bos_token_id=bos_token_id,
  eos_token_id=eos_token_id, **kwargs)\<close>. The keyword arguments are the ones that Python
  collects in \<^verbatim>\<open>**kwargs\<close>: their names are distinct and none is the name of a
  parameter. The ValueError carries the two numbers of its message.
\<close>

definition GPTNeoConfig_init ::
  "gpt_neo_args \<Rightarrow> (string \<times> pyval) list \<Rightarrow> error + obj" where
  "GPTNeoConfig_init a kwargs =
     (let self = [];
          self = setattr self ''vocab_size'' (vocab_size a);
          self = setattr self ''max_position_embeddings'' (max_position_embeddings a);
          self = setattr self ''hidden_size'' (hidden_size a);
          self = setattr self ''num_layers'' (PInt (num_layers a));
          self = setattr self ''num_heads'' (num_heads a);
          self = setattr self ''intermediate_size'' (intermediate_size a);
          self = setattr self ''window_size'' (window_size a);
          self = setattr self ''activation_function'' (activation_function a);
          self = setattr self ''resid_dropout'' (resid_dropout a);
          self = setattr self ''embed_dropout'' (embed_dropout a);
          self = setattr self ''attention_dropout'' (attention_dropout a);
          self = setattr self ''layer_norm_epsilon'' (layer_norm_epsilon a);
          self = setattr self ''initializer_range'' (initializer_range a);
          self = setattr self ''summary_type'' (summary_type a);
          self = setattr self ''summary_use_proj'' (summary_use_proj a);
          self = setattr self ''summary_activation'' (summary_activation a);
          self = setattr self ''summary_first_dropout'' (summary_first_dropout a);
          self = setattr self ''summary_proj_to_labels'' (summary_proj_to_labels a);
          self = setattr self ''vocab_parallel_embedding'' (vocab_parallel_embedding a);
          self = setattr self ''make_vocab_size_divisible_by'' (make_vocab_size_divisible_by a);
          self = setattr self ''use_cache'' (use_cache a);
          self = setattr self ''bos_token_id'' (bos_token_id a);
          self = setattr self ''eos_token_id'' (eos_token_id a);
          self = setattr self ''attention_types'' (attention_types_value (attention_types a));
          attention_layers = expand_attention_types_params (attention_types a);
          self = setattr self ''attention_layers'' (str_list_value attention_layers)
      in if int (length attention_layers) \<noteq> num_layers a
         then Inl (LayersValueError (length attention_layers) (num_layers a))
         else Inr (PretrainedConfig_init self (bos_token_id a) (eos_token_id a) kwargs))"

text \<open>The names of the attributes that \<^verbatim>\<open>GPTNeoConfig.__init__\<close> assigns, in its order.\<close>

definition GPTNeoConfig_attributes :: "string list" where
  "GPTNeoConfig_attributes =
     [''vocab_size'', ''max_position_embeddings'', ''hidden_size'', ''num_layers'',
      ''num_heads'', ''intermediate_size'', ''window_size'', ''activation_function'',
      ''resid_dropout'', ''embed_dropout'', ''attention_dropout'', ''layer_norm_epsilon'',
      ''initializer_range'', ''summary_type'', ''summary_use_proj'', ''summary_activation'',
      ''summary_first_dropout'', ''summary_proj_to_labels'', ''vocab_parallel_embedding'',
      ''make_vocab_size_divisible_by'', ''use_cache'', ''bos_token_id'', ''eos_token_id'',
      ''attention_types'', ''attention_layers'']"

text \<open>
  The object that \<^verbatim>\<open>GPTNeoConfig.__init__\<close> has built when it reaches the call of the
  superclass initializer.
\<close>

definition GPTNeoConfig_self :: "gpt_neo_args \<Rightarrow> obj" where
  "GPTNeoConfig_self a =
     [(''vocab_size'', vocab_size a),
      (''max_position_embeddings'', max_position_embeddings a),
      (''hidden_size'', hidden_size a),
      (''num_layers'', PInt (num_layers a)),
      (''num_heads'', num_heads a),
      (''intermediate_size'', intermediate_size a),
      (''window_size'', window_size a),
      (''activation_function'', activation_function a),
      (''resid_dropout'', resid_dropout a),
      (''embed_dropout'', embed_dropout a),
      (''attention_dropout'', attention_dropout a),
      (''layer_norm_epsilon'', layer_norm_epsilon a),
      (''initializer_range'', initializer_range a),
      (''summary_type'', summary_type a),
      (''summary_use_proj'', summary_use_proj a),
      (''summary_activation'', summary_activation a),
      (''summary_first_dropout'', summary_first_dropout a),
      (''summary_proj_to_labels'', summary_proj_to_labels a),
      (''vocab_parallel_embedding'', vocab_parallel_embedding a),
      (''make_vocab_size_divisible_by'', make_vocab_size_divisible_by a),
      (''use_cache'', use_cache a),
      (''bos_token_id'', bos_token_id a),
      (''eos_token_id'', eos_token_id a),
      (''attention_types'', attention_types_value (attention_types a)),
      (''attention_layers'', str_list_value (expand_attention_types_params (attention_types a)))]"

text \<open>The default values of the arguments, from the signature of \<^verbatim>\<open>__init__\<close>.\<close>

definition GPTNeoConfig_defaults :: gpt_neo_args where
  "GPTNeoConfig_defaults =
     \<lparr>vocab_size = PInt 50257, max_position_embeddings = PInt 2048, hidden_size = PInt 2048,
      num_layers = 24, attention_types = [([''global'', ''local''], 12)], num_heads = PInt 16,
      intermediate_size = PNone, window_size = PInt 256,
      activation_function = PStr ''gelu_new'', resid_dropout = PFloat 0,
      embed_dropout = PFloat 0, attention_dropout = PFloat 0,
      layer_norm_epsilon = PFloat (1 / 100000), initializer_range = PFloat (2 / 100),
      summary_type = PStr ''cls_index'', summary_use_proj = PBool True,
      summary_activation = PNone, summary_proj_to_labels = PBool True,
      summary_first_dropout = PFloat (1 / 10), vocab_parallel_embedding = PBool False,
      make_vocab_size_divisible_by = PInt 128, use_cache = PBool True,
      bos_token_id = PInt 50256, eos_token_id = PInt 50256\<rparr>"

text \<open>
  A configuration other than the default one, for the examples: three layers, two global
  and one local.
\<close>

definition GPTNeoConfig_example :: gpt_neo_args where
  "GPTNeoConfig_example =
     GPTNeoConfig_defaults
       \<lparr>vocab_size := PInt 100, num_layers := 3,
        attention_types := [([''global''], 2), ([''local''], 1)], use_cache := PBool False\<rparr>"

text \<open>The attribute of the object that a construction returns, None where it raises.\<close>

definition constructed_attribute :: "error + obj \<Rightarrow> string \<Rightarrow> pyval option" where
  "constructed_attribute r name = (case r of Inl e \<Rightarrow> None | Inr cfg \<Rightarrow> getattr cfg name)"

text \<open>
  The length of the expansion as the specification words it: the sum over the entries of
  the number of listed types times the repetition count.
\<close>

definition claimed_expanded_length :: "('a list \<times> int) list \<Rightarrow> int" where
  "claimed_expanded_length ats =
     sum_list (map (\<lambda>item. int (length (fst item)) * snd item) ats)"

section \<open>agents/llm\_engine.py: the message-role normalizer\<close>

text \<open>
  \<^verbatim>\<open>class MessageRole(str, Enum)\<close> with its values, and \<^verbatim>\<open>roles()\<close>, the list of the
  values in the order of the members.
\<close>

datatype MessageRole = USER | ASSISTANT | SYSTEM | TOOL_CALL | TOOL_RESPONSE

fun role_value :: "MessageRole \<Rightarrow> string" where
  "role_value USER = ''user''"
| "role_value ASSISTANT = ''assistant''"
| "role_value SYSTEM = ''system''"
| "role_value TOOL_CALL = ''tool-call''"
| "role_value TOOL_RESPONSE = ''tool-response''"

definition MessageRole_roles :: "string list" where
  "MessageRole_roles = map role_value [USER, ASSISTANT, SYSTEM, TOOL_CALL, TOOL_RESPONSE]"

text \<open>
  A message is a Python dictionary from strings to strings, in insertion order. Messages
  are mutable objects: the store holds the dictionaries, a reference is an index into the
  store, and a list of messages is a list of references, in which one dictionary can occur
  more than once.
\<close>

type_synonym message = "(string \<times> string) list"
type_synonym ref = nat
type_synonym store = "message list"

definition dict_keys :: "message \<Rightarrow> string set" where
  "dict_keys d = set (map fst d)"

definition dict_getitem :: "message \<Rightarrow> string \<Rightarrow> error + string" where
  "dict_getitem d k = (case map_of d k of None \<Rightarrow> Inl KeyError | Some v \<Rightarrow> Inr v)"

definition dict_setitem :: "message \<Rightarrow> string \<Rightarrow> string \<Rightarrow> message" where
  "dict_setitem d k v = AList.update k v d"

text \<open>
  \<^verbatim>\<open>deepcopy(message_list)\<close>: a new list of new dictionaries. The memo of \<^verbatim>\<open>deepcopy\<close>
  maps every object that is already copied to its copy, so a dictionary that occurs twice
  in the list is copied once and its copy occurs twice. The strings are immutable and
  stay shared. A copy is allocated at the end of the store. (A reference of a Python list
  always points to an object; the model reads \<open>h ! r\<close> only for \<open>r\<close> inside the store.)
\<close>

fun deepcopy_refs :: "store \<Rightarrow> (ref \<times> ref) list \<Rightarrow> ref list \<Rightarrow> store \<times> ref list" where
  "deepcopy_refs h memo [] = (h, [])"
| "deepcopy_refs h memo (r # rs) =
     (case map_of memo r of
        Some c \<Rightarrow>
          (case deepcopy_refs h memo rs of (h', cs) \<Rightarrow> (h', c # cs))
      | None \<Rightarrow>
          (case deepcopy_refs (h @ [h ! r]) ((r, length h) # memo) rs of
             (h', cs) \<Rightarrow> (h', length h # cs)))"

definition deepcopy :: "store \<Rightarrow> ref list \<Rightarrow> store \<times> ref list" where
  "deepcopy h message_list = deepcopy_refs h [] message_list"

definition separator :: string where
  "separator = CHR 0x0A # ''======='' @ [CHR 0x0A]"

text \<open>
  The body of the loop, for the message at reference \<open>message\<close>:
  \<^verbatim>\<open>
  if not set(message.keys()) == {"role", "content"}:
      raise ValueError("Message should contain only 'role' and 'content' keys!")
  role = message["role"]
  if role not in MessageRole.roles():
      raise ValueError(f"Incorrect role {role}, only {MessageRole.roles()} are supported for now.")
  if role in role_conversions:
      message["role"] = role_conversions[role]
  if len(final_message_list) > 0 and message["role"] == final_message_list[-1]["role"]:
      final_message_list[-1]["content"] += "\n=======\n" + message["content"]
  else:
      final_message_list.append(message)
  \<close>
  The two ValueErrors are \<open>KeysValueError\<close> and \<open>RoleValueError role\<close>.
\<close>

definition clean_step ::
  "(string \<times> string) list \<Rightarrow> store \<times> ref list \<Rightarrow> ref \<Rightarrow> error + (store \<times> ref list)" where
  "clean_step role_conversions state message =
     (case state of (h, final_message_list) \<Rightarrow>
        if dict_keys (h ! message) \<noteq> {''role'', ''content''} then Inl KeysValueError
        else
          on_value (dict_getitem (h ! message) ''role'') (\<lambda>role.
            if role \<notin> set MessageRole_roles then Inl (RoleValueError role)
            else
              let h = (case map_of role_conversions role of
                         Some converted \<Rightarrow>
                           h[message := dict_setitem (h ! message) ''role'' converted]
                       | None \<Rightarrow> h)
              in
                if final_message_list = [] then Inr (h, final_message_list @ [message])
                else
                  on_value (dict_getitem (h ! message) ''role'') (\<lambda>message_role.
                  on_value (dict_getitem (h ! last final_message_list) ''role'') (\<lambda>last_role.
                    if message_role = last_role
                    then
                      on_value (dict_getitem (h ! last final_message_list) ''content'') (\<lambda>content.
                      on_value (dict_getitem (h ! message) ''content'') (\<lambda>message_content.
                        Inr (h[last final_message_list :=
                                 dict_setitem (h ! last final_message_list) ''content''
                                   (content @ separator @ message_content)],
                             final_message_list)))
                    else Inr (h, final_message_list @ [message])))))"

fun clean_loop ::
  "(string \<times> string) list \<Rightarrow> store \<times> ref list \<Rightarrow> ref list \<Rightarrow> error + (store \<times> ref list)" where
  "clean_loop role_conversions state [] = Inr state"
| "clean_loop role_conversions state (message # message_list) =
     on_value (clean_step role_conversions state message)
       (\<lambda>state'. clean_loop role_conversions state' message_list)"

text \<open>
  \<^verbatim>\<open>
  final_message_list = []
  message_list = deepcopy(message_list)
  for message in message_list: ...
  return final_message_list
  \<close>
  The result is the store after the call and the list of references that is returned.
\<close>

definition get_clean_message_list ::
  "store \<Rightarrow> ref list \<Rightarrow> (string \<times> string) list \<Rightarrow> error + (store \<times> ref list)" where
  "get_clean_message_list h message_list role_conversions =
     (case deepcopy h message_list of
        (h', copies) \<Rightarrow> clean_loop role_conversions (h', []) copies)"

text \<open>
  \<^verbatim>\<open>llama_role_conversions = {MessageRole.TOOL_RESPONSE: MessageRole.USER}\<close>, the
  conversions that both engines pass.
\<close>

definition llama_role_conversions :: "(string \<times> string) list" where
  "llama_role_conversions = [(role_value TOOL_RESPONSE, role_value USER)]"

text \<open>
  The merging as the specification words it. \<open>str_join sep parts\<close> is \<^verbatim>\<open>sep.join(parts)\<close>;
  \<open>role_runs\<close> splits a list of (role, content) pairs into its maximal runs of consecutive
  pairs with the same role, each run as the role and the contents in input order; a merged
  run is the role with the contents joined by the separator.
\<close>

fun str_join :: "'a list \<Rightarrow> 'a list list \<Rightarrow> 'a list" where
  "str_join sep [] = []"
| "str_join sep [c] = c"
| "str_join sep (c # d # cs) = c @ sep @ str_join sep (d # cs)"

function role_runs :: "('r \<times> 'c) list \<Rightarrow> ('r \<times> 'c list) list" where
  "role_runs [] = []"
| "role_runs ((r, c) # xs) =
     (r, c # map snd (takeWhile (\<lambda>x. fst x = r) xs)) # role_runs (dropWhile (\<lambda>x. fst x = r) xs)"
  by pat_completeness auto
termination
  by (relation "measure length") (auto simp: le_imp_less_Suc length_dropWhile_le)

definition merged_runs :: "(string \<times> string) list \<Rightarrow> (string \<times> string) list" where
  "merged_runs xs = map (\<lambda>run. (fst run, str_join separator (snd run))) (role_runs xs)"

text \<open>
  The role of a message after \<^verbatim>\<open>if role in role_conversions: message["role"] =
  role_conversions[role]\<close>.
\<close>

definition convert_role :: "(string \<times> string) list \<Rightarrow> string \<Rightarrow> string" where
  "convert_role role_conversions role =
     (case map_of role_conversions role of Some converted \<Rightarrow> converted | None \<Rightarrow> role)"

text \<open>
  Auxiliary notions for the proofs: the loop on (role, content) pairs; the messages that
  pass both checks of the loop; the conversions that map every supported role to a
  supported role; \<open>d[k]\<close> of a dictionary that has the key \<open>k\<close>; the (role, content) pair
  of a message, before and after the conversion of its role; and the state that one
  iteration on a message that passes the checks leaves.
\<close>

fun merge_loop :: "(string \<times> string) list \<Rightarrow> (string \<times> string) list \<Rightarrow> (string \<times> string) list" where
  "merge_loop acc [] = acc"
| "merge_loop acc (x # xs) =
     (if acc \<noteq> [] \<and> fst x = fst (last acc)
      then merge_loop (butlast acc @ [(fst (last acc), snd (last acc) @ separator @ snd x)]) xs
      else merge_loop (acc @ [x]) xs)"

definition supported_message :: "message \<Rightarrow> bool" where
  "supported_message d \<longleftrightarrow>
     dict_keys d = {''role'', ''content''}
     \<and> (case map_of d ''role'' of Some role \<Rightarrow> role \<in> set MessageRole_roles | None \<Rightarrow> False)"

definition conversions_supported :: "(string \<times> string) list \<Rightarrow> bool" where
  "conversions_supported role_conversions \<longleftrightarrow>
     list_all (\<lambda>role. convert_role role_conversions role \<in> set MessageRole_roles) MessageRole_roles"

definition dict_item :: "message \<Rightarrow> string \<Rightarrow> string" where
  "dict_item d k = (case map_of d k of Some v \<Rightarrow> v | None \<Rightarrow> [])"

definition step_state ::
  "(string \<times> string) list \<Rightarrow> store \<Rightarrow> ref list \<Rightarrow> ref \<Rightarrow> store \<times> ref list" where
  "step_state conv h final m =
     (let h1 = h[m := dict_setitem (h ! m) ''role'' (convert_role conv (dict_item (h ! m) ''role''))]
      in if final \<noteq> [] \<and> dict_item (h1 ! m) ''role'' = dict_item (h1 ! last final) ''role''
         then (h1[last final := dict_setitem (h1 ! last final) ''content''
                   (dict_item (h1 ! last final) ''content'' @ separator @ dict_item (h1 ! m) ''content'')],
               final)
         else (h1, final @ [m]))"

definition message_view :: "message \<Rightarrow> string \<times> string" where
  "message_view d = (dict_item d ''role'', dict_item d ''content'')"

definition converted_message_view :: "(string \<times> string) list \<Rightarrow> message \<Rightarrow> string \<times> string" where
  "converted_message_view conv d = (convert_role conv (dict_item d ''role''), dict_item d ''content'')"

section \<open>pipelines/image\_feature\_extraction.py\<close>

text \<open>
  The value that \<^verbatim>\<open>postprocess\<close> returns: the tensor itself, its conversion to nested
  lists, or None (the method ends without a return when the framework is neither \<^verbatim>\<open>"pt"\<close>
  nor \<^verbatim>\<open>"tf"\<close>).
\<close>

datatype ('t, 'l) features = Tensor 't | Nested 'l | PyNone

text \<open>
  \<^verbatim>\<open>
  def preprocess(self, image, timeout=None, **image_processor_kwargs):
      image = load_image(image, timeout=timeout)
      model_inputs = self.image_processor(image, return_tensors=self.framework, **image_processor_kwargs)
      return model_inputs
  \<close>
  \<^verbatim>\<open>load_image\<close> (image\_utils) and the image processor are not part of this file: they
  are parameters, and both can raise.
\<close>

definition preprocess ::
  "('raw \<Rightarrow> 'timeout \<Rightarrow> error + 'img) \<Rightarrow> ('img \<Rightarrow> string \<Rightarrow> 'kwargs \<Rightarrow> error + 'inp)
   \<Rightarrow> string \<Rightarrow> 'raw \<Rightarrow> 'timeout \<Rightarrow> 'kwargs \<Rightarrow> error + 'inp" where
  "preprocess load_image image_processor framework input_image timeout image_processor_kwargs =
     on_value (load_image input_image timeout)
       (\<lambda>loaded. image_processor loaded framework image_processor_kwargs)"

text \<open>
  \<^verbatim>\<open>
  def _forward(self, model_inputs):
      model_outputs = self.model(**model_inputs)
      return model_outputs
  \<close>
\<close>

definition forward :: "('inp \<Rightarrow> error + 'out) \<Rightarrow> 'inp \<Rightarrow> error + 'out" where
  "forward model model_inputs = model model_inputs"

text \<open>
  \<^verbatim>\<open>
  def postprocess(self, model_outputs, return_tensors=False):
      if return_tensors:
          return model_outputs[0]
      if self.framework == "pt":
          return model_outputs[0].tolist()
      elif self.framework == "tf":
          return model_outputs[0].numpy().tolist()
  \<close>
  The model outputs are the tuple of the tensors of the output; \<^verbatim>\<open>model_outputs[0]\<close>
  raises IndexError on an empty one. \<^verbatim>\<open>tolist\<close> and \<^verbatim>\<open>numpy\<close> are the methods of the
  tensors of the two frameworks.
\<close>

definition getitem0 :: "'t list \<Rightarrow> error + 't" where
  "getitem0 xs = (case xs of [] \<Rightarrow> Inl IndexError | x # _ \<Rightarrow> Inr x)"

definition postprocess ::
  "string \<Rightarrow> ('t \<Rightarrow> 'l) \<Rightarrow> ('t \<Rightarrow> 'n) \<Rightarrow> ('n \<Rightarrow> 'l) \<Rightarrow> 't list \<Rightarrow> bool
   \<Rightarrow> error + ('t, 'l) features" where
  "postprocess framework tolist numpy numpy_tolist model_outputs return_tensors =
     (if return_tensors then on_value (getitem0 model_outputs) (\<lambda>t. Inr (Tensor t))
      else if framework = ''pt''
        then on_value (getitem0 model_outputs) (\<lambda>t. Inr (Nested (tolist t)))
      else if framework = ''tf''
        then on_value (getitem0 model_outputs) (\<lambda>t. Inr (Nested (numpy_tolist (numpy t))))
      else Inr PyNone)"

text \<open>
  \<^verbatim>\<open>
  def _sanitize_parameters(self, return_tensors=None, **kwargs):
      preprocess_params = kwargs.pop("image_processor_kwargs", {})
      postprocess_params = {"return_tensors": return_tensors} if return_tensors is not None else {}
      if "timeout" in kwargs:
          preprocess_params["timeout"] = kwargs["timeout"]
      return preprocess_params, {}, postprocess_params
  \<close>
  The keyword arguments that the method reads are its arguments here, each None when the
  caller does not give it (every other keyword argument is ignored). A dictionary is the
  list of its keys and values, and a value that can be Python's None is an option.
\<close>

definition sanitize_parameters ::
  "bool option \<Rightarrow> (string \<times> 'v option) list option \<Rightarrow> 'v option option
   \<Rightarrow> (string \<times> 'v option) list \<times> (string \<times> 'v option) list \<times> (string \<times> bool) list" where
  "sanitize_parameters return_tensors image_processor_kwargs timeout =
     (let preprocess_params = (case image_processor_kwargs of None \<Rightarrow> [] | Some d \<Rightarrow> d);
          postprocess_params =
            (case return_tensors of None \<Rightarrow> [] | Some r \<Rightarrow> [(''return_tensors'', r)]);
          preprocess_params =
            (case timeout of
               None \<Rightarrow> preprocess_params
             | Some t \<Rightarrow> AList.update ''timeout'' t preprocess_params)
      in (preprocess_params, [], postprocess_params))"

text \<open>
  Modelled from the spec: \<^verbatim>\<open>Pipeline.__call__\<close> of the base class (pipelines/base.py),
  which is not among the sources and to which \<^verbatim>\<open>__call__\<close> of this class delegates. The
  specification calls a pipeline a wrapper chaining pre-processing, model inference and
  post-processing: for one input the call runs the pre-processing, the inference and the
  post-processing of the class in this order, each on the value that the stage before it
  returns and with the keyword arguments that \<^verbatim>\<open>_sanitize_parameters\<close> returns for it; an
  exception of a stage ends the call.
\<close>

definition Pipeline_call ::
  "('raw \<Rightarrow> 'pre \<Rightarrow> error + 'inp) \<Rightarrow> ('inp \<Rightarrow> 'fwd \<Rightarrow> error + 'out) \<Rightarrow> ('out \<Rightarrow> 'post \<Rightarrow> error + 'res)
   \<Rightarrow> 'pre \<times> 'fwd \<times> 'post \<Rightarrow> 'raw \<Rightarrow> error + 'res" where
  "Pipeline_call preprocess_stage forward_stage postprocess_stage params inputs =
     (case params of (preprocess_params, forward_params, postprocess_params) \<Rightarrow>
        on_value (preprocess_stage inputs preprocess_params) (\<lambda>model_inputs.
        on_value (forward_stage model_inputs forward_params) (\<lambda>model_outputs.
          postprocess_stage model_outputs postprocess_params)))"

text \<open>
  \<^verbatim>\<open>
  def __call__(self, *args, **kwargs):
      return super().__call__(*args, **kwargs)
  \<close>
  The three stages of the class are its methods \<^verbatim>\<open>preprocess\<close>, \<^verbatim>\<open>_forward\<close> and
  \<^verbatim>\<open>postprocess\<close>, called with a dictionary of keyword arguments: \<^verbatim>\<open>preprocess\<close> takes
  the entry \<open>timeout\<close> as its parameter of this name (None without it) and the other
  entries as \<open>image_processor_kwargs\<close>; \<^verbatim>\<open>postprocess\<close> takes the entry
  \<open>return_tensors\<close> (False without it).
\<close>

definition ImageFeatureExtractionPipeline_call ::
  "('raw \<Rightarrow> 'v option \<Rightarrow> error + 'img)
   \<Rightarrow> ('img \<Rightarrow> string \<Rightarrow> (string \<times> 'v option) list \<Rightarrow> error + 'inp)
   \<Rightarrow> string \<Rightarrow> ('inp \<Rightarrow> error + 't list) \<Rightarrow> ('t \<Rightarrow> 'l) \<Rightarrow> ('t \<Rightarrow> 'n) \<Rightarrow> ('n \<Rightarrow> 'l)
   \<Rightarrow> 'raw \<Rightarrow> bool option \<Rightarrow> (string \<times> 'v option) list option \<Rightarrow> 'v option option
   \<Rightarrow> error + ('t, 'l) features" where
  "ImageFeatureExtractionPipeline_call load_image image_processor framework model tolist numpy
       numpy_tolist inputs return_tensors image_processor_kwargs timeout =
     Pipeline_call
       (\<lambda>input_image preprocess_params.
          preprocess load_image image_processor framework input_image
            (case map_of preprocess_params ''timeout'' of None \<Rightarrow> None | Some t \<Rightarrow> t)
            (AList.delete ''timeout'' preprocess_params))
       (\<lambda>model_inputs forward_params. forward model model_inputs)
       (\<lambda>model_outputs postprocess_params.
          postprocess framework tolist numpy numpy_tolist model_outputs
            (case map_of postprocess_params ''return_tensors'' of None \<Rightarrow> False | Some r \<Rightarrow> r))
       (sanitize_parameters return_tensors image_processor_kwargs timeout)
       inputs"

text \<open>An image loader, an image processor and a model for the examples.\<close>

definition example_load_image :: "string \<Rightarrow> nat option \<Rightarrow> error + nat" where
  "example_load_image s timeout = (if s = ''cat.png'' then Inr 3 else Inl ImageValueError)"

definition example_image_processor ::
  "nat \<Rightarrow> string \<Rightarrow> (string \<times> nat option) list \<Rightarrow> error + nat" where
  "example_image_processor loaded framework kwargs =
     (if framework = ''pt'' then Inr (loaded + length kwargs) else Inl RuntimeError)"

definition example_model :: "nat \<Rightarrow> error + nat list" where
  "example_model model_inputs = Inr [2 * model_inputs, 0]"

section \<open>pipelines/object\_detection.py\<close>

text \<open>
  What the pipeline is given as an image: a string, a PIL image, or something else.
  The argument \<open>images\<close> of \<^verbatim>\<open>__call__\<close> is one of these or a list of them.
\<close>

datatype 'img image_arg = Str string | Image 'img | Other

datatype 'a images_arg = Single 'a | Batch "'a list"

text \<open>
  The components that the pipeline calls and that are not part of this file: opening an
  image from a URL and from a file, \<^verbatim>\<open>os.path.isfile\<close>, the size of an image, the feature
  extractor with its \<^verbatim>\<open>post_process\<close>, the model with the \<^verbatim>\<open>id2label\<close> of its
  configuration. \<^verbatim>\<open>post_process\<close> returns one dictionary for each image, with the keys
  \<^verbatim>\<open>scores\<close>, \<^verbatim>\<open>labels\<close>, \<^verbatim>\<open>boxes\<close> in this order (the pipeline zips its values with the
  keys \<^verbatim>\<open>score\<close>, \<^verbatim>\<open>label\<close>, \<^verbatim>\<open>box\<close>): a float32 tensor of scores, a tensor of label ids
  and a float32 tensor of boxes, each box a row of coordinates. A rational stands for a
  finite float. The last component is torch's conversion of a Python float to the type of
  the scores: a tensor of float32 numbers is compared with a Python float in float32.
\<close>

record annotation =
  scores :: "rat list"
  labels :: "int list"
  boxes :: "rat list list"

record ('img, 'inp, 'out) detector =
  open_url :: "string \<Rightarrow> error + 'img"
  isfile :: "string \<Rightarrow> bool"
  open_file :: "string \<Rightarrow> error + 'img"
  height :: "'img \<Rightarrow> int"
  width :: "'img \<Rightarrow> int"
  feature_extractor :: "'img list \<Rightarrow> 'inp"
  model :: "'inp \<Rightarrow> 'out"
  post_process :: "'out \<Rightarrow> (int \<times> int) list \<Rightarrow> annotation list"
  id2label :: "(int \<times> string) list"
  to_float32 :: "rat \<Rightarrow> rat"

text \<open>
  \<^verbatim>\<open>
  if isinstance(image, str):
      if image.startswith("http://") or image.startswith("https://"):
          return Image.open(requests.get(image, stream=True).raw)
      elif os.path.isfile(image):
          return Image.open(image)
  elif isinstance(image, Image.Image):
      return image
  raise ValueError("Incorrect format used for image. ...")
  \<close>
\<close>

definition load_image :: "('img, 'inp, 'out) detector \<Rightarrow> 'img image_arg \<Rightarrow> error + 'img" where
  "load_image p input_image =
     (case input_image of
        Str s \<Rightarrow>
          if prefix ''http://'' s \<or> prefix ''https://'' s then open_url p s
          else if isfile p s then open_file p s
          else Inl ImageValueError
      | Image im \<Rightarrow> Inr im
      | Other \<Rightarrow> Inl ImageValueError)"

text \<open>
  The range of a 32-bit integer. \<^verbatim>\<open>torch.IntTensor\<close> of a list of rows of Python
  integers is a tensor of 32-bit integers: torch raises RuntimeError for an integer outside
  their range.
\<close>

definition in_int32 :: "int \<Rightarrow> bool" where
  "in_int32 i \<longleftrightarrow> - 2147483648 \<le> i \<and> i < 2147483648"

definition IntTensor :: "(int \<times> int) list \<Rightarrow> error + (int \<times> int) list" where
  "IntTensor rows =
     (if list_all (\<lambda>(h, w). in_int32 h \<and> in_int32 w) rows then Inr rows else Inl RuntimeError)"

text \<open>
  \<^verbatim>\<open>box.int()\<close> converts a float32 to a 32-bit integer: it truncates towards zero, and a
  float whose truncation is outside the range of a 32-bit integer is converted to the least
  32-bit integer (the conversion of the processor; \<^verbatim>\<open>3e9\<close> gives \<^verbatim>\<open>-2147483648\<close>).
\<close>

definition tensor_int :: "rat \<Rightarrow> int" where
  "tensor_int q =
     (let truncated = (if 0 \<le> q then \<lfloor>q\<rfloor> else \<lceil>q\<rceil>)
      in if in_int32 truncated then truncated else - 2147483648)"

text \<open>
  \<^verbatim>\<open>
  xmin, ymin, xmax, ymax = box.int().tolist()
  vertices = [{"x": xmin, "y": ymin}, {"x": xmax, "y": ymin},
              {"x": xmax, "y": ymax}, {"x": xmin, "y": ymax}]
  return vertices
  \<close>
  The unpacking raises ValueError unless the box has four coordinates.
\<close>

type_synonym vertex = "(string \<times> int) list"

definition get_clockwise_vertices :: "rat list \<Rightarrow> error + vertex list" where
  "get_clockwise_vertices box =
     (case map tensor_int box of
        [xmin, ymin, xmax, ymax] \<Rightarrow>
          Inr [[(''x'', xmin), (''y'', ymin)],
               [(''x'', xmax), (''y'', ymin)],
               [(''x'', xmax), (''y'', ymax)],
               [(''x'', xmin), (''y'', ymax)]]
      | _ \<Rightarrow> Inl UnpackValueError)"

text \<open>The values of the dictionary of one detection, and the two shapes of the result.\<close>

datatype detection_value = Score rat | Label string | Box "vertex list"

type_synonym prediction = "(string \<times> detection_value) list"

datatype predictions = Predictions "prediction list" | PredictionLists "prediction list list"

text \<open>
  The body of the loop over the annotations:
  \<^verbatim>\<open>
  keep = annotation["scores"] > threshold
  scores = annotation["scores"][keep]
  labels = annotation["labels"][keep]
  boxes = annotation["boxes"][keep]
  annotation["scores"] = scores.tolist()
  annotation["labels"] = [self.model.config.id2label[label.item()] for label in labels]
  annotation["boxes"] = [self._get_clockwise_vertices(box) for box in boxes]
  keys = ["score", "label", "box"]
  annotation = [dict(zip(keys, vals)) for vals in zip(*annotation.values())]
  \<close>
  The threshold is a Python float or None (\<^verbatim>\<open>Optional[float]\<close>): the comparison of a tensor
  with None raises TypeError, and the comparison with a float is the comparison of each
  score with the float converted to float32.
\<close>

definition keep_detections ::
  "('img, 'inp, 'out) detector \<Rightarrow> rat option \<Rightarrow> annotation \<Rightarrow> error + prediction list" where
  "keep_detections p threshold annotation =
     (case threshold of
        None \<Rightarrow> Inl TypeError
      | Some t \<Rightarrow>
          let keep = map (\<lambda>s. to_float32 p t < s) (scores annotation) in
          on_value (mask_index (scores annotation) keep) (\<lambda>scores'.
          on_value (mask_index (labels annotation) keep) (\<lambda>labels'.
          on_value (mask_index (boxes annotation) keep) (\<lambda>boxes'.
          on_value (map_raise (\<lambda>label. case map_of (id2label p) label of
                                           None \<Rightarrow> Inl KeyError
                                         | Some name \<Rightarrow> Inr name) labels') (\<lambda>names.
          on_value (map_raise get_clockwise_vertices boxes') (\<lambda>vertices.
            Inr (map (\<lambda>(s, n, v). [(''score'', Score s), (''label'', Label n), (''box'', Box v)])
                   (zip scores' (zip names vertices)))))))))"

text \<open>
  The default \<^verbatim>\<open>0.9\<close> of the parameter \<open>threshold\<close> is a Python float: the double nearest
  to nine tenths, \<open>8106479329266893 / 2 ^ 53\<close>.
\<close>

definition threshold_default :: rat where
  "threshold_default = 8106479329266893 / 9007199254740992"

text \<open>
  \<^verbatim>\<open>
  def __call__(self, images, threshold: Optional[float] = 0.9):
      is_batched = isinstance(images, list)
      if not is_batched:
          images = [images]
      images = [self.load_image(image) for image in images]
      with torch.no_grad():
          inputs = self.feature_extractor(images=images, return_tensors="pt")
          outputs = self.model(**inputs)
          target_sizes = torch.IntTensor([[im.height, im.width] for im in images])
          annotations = self.feature_extractor.post_process(outputs, target_sizes)
          for i, annotation in enumerate(annotations):
              ...
              annotations[i] = annotation
      if not is_batched:
          return annotations[0]
      return annotations
  \<close>
  The argument \<open>threshold\<close> is None here when the caller does not give it, and the value
  that the caller gives otherwise, which can be Python's None.
\<close>

definition ObjectDetectionPipeline_call ::
  "('img, 'inp, 'out) detector \<Rightarrow> 'img image_arg images_arg \<Rightarrow> rat option option
   \<Rightarrow> error + predictions" where
  "ObjectDetectionPipeline_call p images threshold_arg =
     (let threshold = (case threshold_arg of None \<Rightarrow> Some threshold_default | Some given \<Rightarrow> given);
          is_batched = (case images of Batch _ \<Rightarrow> True | Single _ \<Rightarrow> False);
          images = (case images of Batch ims \<Rightarrow> ims | Single im \<Rightarrow> [im])
      in
      on_value (map_raise (load_image p) images) (\<lambda>images.
        let inputs = feature_extractor p images;
            outputs = model p inputs
        in
        on_value (IntTensor (map (\<lambda>im. (height p im, width p im)) images)) (\<lambda>target_sizes.
          let annotations = post_process p outputs target_sizes in
          on_value (map_raise (keep_detections p threshold) annotations) (\<lambda>annotations.
            if \<not> is_batched
            then (case annotations of [] \<Rightarrow> Inl IndexError | a # _ \<Rightarrow> Inr (Predictions a))
            else Inr (PredictionLists annotations)))))"

text \<open>
  The result as the specification words it. The detections of an annotation whose score is
  above a bound, in order; the dictionary of a detection, with the name of its label and
  the four corners of its box, top-left, top-right, bottom-right, bottom-left; and the lists
  of dictionaries of a result, one list for each image.
\<close>

definition detections_above :: "rat \<Rightarrow> annotation \<Rightarrow> (rat \<times> int \<times> rat list) list" where
  "detections_above t a =
     filter (\<lambda>(s, l, b). t < s) (zip (scores a) (zip (labels a) (boxes a)))"

definition corner_at :: "int \<Rightarrow> int \<Rightarrow> vertex" where
  "corner_at x y = [(''x'', x), (''y'', y)]"

definition corners :: "rat list \<Rightarrow> vertex list" where
  "corners b =
     (let left = tensor_int (b ! 0); top = tensor_int (b ! 1);
          right = tensor_int (b ! 2); bottom = tensor_int (b ! 3)
      in [corner_at left top, corner_at right top, corner_at right bottom, corner_at left bottom])"

definition prediction_of ::
  "('img, 'inp, 'out) detector \<Rightarrow> rat \<times> int \<times> rat list \<Rightarrow> prediction" where
  "prediction_of p d =
     (case d of (s, l, b) \<Rightarrow>
        [(''score'', Score s),
         (''label'', Label (case map_of (id2label p) l of Some name \<Rightarrow> name | None \<Rightarrow> [])),
         (''box'', Box (corners b))])"

fun prediction_lists :: "predictions \<Rightarrow> prediction list list" where
  "prediction_lists (Predictions ps) = [ps]"
| "prediction_lists (PredictionLists ls) = ls"

text \<open>
  Four corner dictionaries in clockwise order starting from the top-left corner, as seen
  on the image, where \<open>x\<close> grows to the right and \<open>y\<close> grows downwards: each has exactly
  the keys \<open>x\<close> and \<open>y\<close>; from the first to the second \<open>y\<close> stays and \<open>x\<close> does not
  decrease (along the top edge to the right), from the second to the third \<open>x\<close> stays and
  \<open>y\<close> does not decrease (down the right edge), from the third to the fourth \<open>y\<close> stays
  and \<open>x\<close> does not increase (along the bottom edge to the left), and the fourth is below
  the first at the same \<open>x\<close>. So the first corner has the least \<open>x\<close> and the least \<open>y\<close>
  of the four.
\<close>

definition point :: "vertex \<Rightarrow> (int \<times> int) option" where
  "point v =
     (case v of
        [(kx, x), (ky, y)] \<Rightarrow> if kx = ''x'' \<and> ky = ''y'' then Some (x, y) else None
      | _ \<Rightarrow> None)"

definition clockwise_from_top_left :: "vertex list \<Rightarrow> bool" where
  "clockwise_from_top_left vs \<longleftrightarrow>
     (case those (map point vs) of
        Some [(x1, y1), (x2, y2), (x3, y3), (x4, y4)] \<Rightarrow>
          y2 = y1 \<and> x1 \<le> x2 \<and> x3 = x2 \<and> y2 \<le> y3 \<and> y4 = y3 \<and> x4 \<le> x3 \<and> x4 = x1 \<and> y1 \<le> y4
      | _ \<Rightarrow> False)"

text \<open>
  What \<^verbatim>\<open>post_process\<close> is expected to return for an image: tensors of one length, scores
  that are float32 numbers, label ids that \<^verbatim>\<open>id2label\<close> names, and boxes in corners format
  (\<^verbatim>\<open>_get_clockwise_vertices\<close>: ``Tensor containing the coordinates in corners format''),
  that is four coordinates \<open>xmin \<le> xmax\<close>, \<open>ymin \<le> ymax\<close>, here within the range of a 32-bit
  integer.
\<close>

definition corners_format :: "rat list \<Rightarrow> bool" where
  "corners_format b \<longleftrightarrow>
     (case b of
        [xmin, ymin, xmax, ymax] \<Rightarrow>
          xmin \<le> xmax \<and> ymin \<le> ymax
          \<and> list_all (\<lambda>c. - 2147483648 \<le> c \<and> c < 2147483648) b
      | _ \<Rightarrow> False)"

definition detections :: "('img, 'inp, 'out) detector \<Rightarrow> annotation \<Rightarrow> bool" where
  "detections p a \<longleftrightarrow>
     length (labels a) = length (scores a) \<and> length (boxes a) = length (scores a)
     \<and> list_all (\<lambda>s. to_float32 p s = s) (scores a)
     \<and> list_all (\<lambda>l. map_of (id2label p) l \<noteq> None) (labels a)
     \<and> list_all corners_format (boxes a)"

text \<open>
  A detector for the examples. Its conversion to float32 rounds to the nearest multiple of
  \<open>2\<^sup>-\<^sup>2\<^sup>4\<close>: these are the float32 numbers between one half and one, where the thresholds
  and the scores of the examples are. Its \<^verbatim>\<open>post_process\<close> returns the same three
  detections and a fourth one, the box of the whole image, for every image.
\<close>

definition round_to_24_bits :: "rat \<Rightarrow> rat" where
  "round_to_24_bits q = of_int (round (q * 16777216)) / 16777216"

definition example_detector :: "(int \<times> int, unit, unit) detector" where
  "example_detector =
     \<lparr>open_url = (\<lambda>s. Inr (480, 640)), isfile = (\<lambda>s. s = ''cat.png''),
      open_file = (\<lambda>s. Inr (100, 200)), height = fst, width = snd,
      feature_extractor = (\<lambda>ims. ()), model = (\<lambda>i. ()),
      post_process = (\<lambda>out sizes. map (\<lambda>(h, w).
          \<lparr>scores = [15 / 16, 1 / 2, 10066330 / 16777216, 29 / 32], labels = [17, 1, 1, 3],
           boxes = [[0, 0, of_int w, of_int h], [1, 2, 3, 4], [2, 2, 9, 8],
                    [21 / 2, 5, 30, 77 / 10]]\<rparr>) sizes),
      id2label = [(17, ''cat''), (1, ''person''), (3, ''car'')],
      to_float32 = round_to_24_bits\<rparr>"

definition example_cat :: "int \<Rightarrow> int \<Rightarrow> prediction" where
  "example_cat w h =
     [(''score'', Score (15 / 16)), (''label'', Label ''cat''),
      (''box'',
       Box [[(''x'', 0), (''y'', 0)], [(''x'', w), (''y'', 0)],
            [(''x'', w), (''y'', h)], [(''x'', 0), (''y'', h)]])]"

definition example_person :: prediction where
  "example_person =
     [(''score'', Score (10066330 / 16777216)), (''label'', Label ''person''),
      (''box'',
       Box [[(''x'', 2), (''y'', 2)], [(''x'', 9), (''y'', 2)],
            [(''x'', 9), (''y'', 8)], [(''x'', 2), (''y'', 8)]])]"

definition example_car :: prediction where
  "example_car =
     [(''score'', Score (29 / 32)), (''label'', Label ''car''),
      (''box'',
       Box [[(''x'', 10), (''y'', 5)], [(''x'', 30), (''y'', 5)],
            [(''x'', 30), (''y'', 7)], [(''x'', 10), (''y'', 7)]])]"

section \<open>Properties of the block length\<close>

lemma mask_index_map: "mask_index xs (map P xs) = Inr (filter P xs)"
proof -
  have "map snd (filter fst (zip (map P xs) xs)) = filter P xs"
    by (induction xs) simp_all
  then show ?thesis by (simp add: mask_index_def)
qed

lemma fold_max_Max: "fold max xs (x::int) = Max (set (x # xs))"
proof (induction xs arbitrary: x)
  case Nil
  show ?case by simp
next
  case (Cons y ys)
  have "fold max (y # ys) x = fold max ys (max y x)" by simp
  also have "\<dots> = Max (set (max y x # ys))" by (rule Cons.IH)
  also have "\<dots> = Max (set (x # y # ys))"
    by (cases "set ys = {}") (simp_all add: max.commute max.left_commute max.assoc)
  finally show ?case .
qed

lemma torch_max_Max: "xs \<noteq> [] \<Longrightarrow> torch_max xs = Inr (Max (set xs))"
  by (cases xs) (simp_all only: torch_max.simps fold_max_Max list.distinct)

lemma Max_set_in: "xs \<noteq> [] \<Longrightarrow> Max (set xs) \<in> set (xs :: int list)"
  by (rule Max_in) simp_all

lemma Max_set_ge: "e \<in> set xs \<Longrightarrow> e \<le> Max (set (xs :: int list))"
  by (rule Max_ge) simp_all

lemma block_length_unfold:
  assumes "- 9223372036854775808 \<le> s" "s < 9223372036854775808"
    and "- 9223372036854775808 \<le> w" "w < 9223372036854775808"
  shows "custom_get_block_length_and_num_blocks s w =
     (case torch_max (filter (\<lambda>c. s mod c = 0) [1..w - 1]) of
        Inl e \<Rightarrow> Inl e
      | Inr d \<Rightarrow> Inr (d, s div d))"
  using assms
  by (simp add: custom_get_block_length_and_num_blocks_def int64_scalar_def on_value_def
      Let_def mask_index_map filter_map comp_def split: sum.splits)

text \<open>
  C8, as the code has it. For \<open>1 \<le> seq_length < 2^63\<close> and \<open>2 \<le> window_size < 2^63\<close>, the
  integers that torch takes as 64-bit scalars, the function returns
  \<open>(d, seq_length div d)\<close> where \<open>d\<close> is the largest integer of the interval
  \<open>[1, window_size)\<close> that divides \<open>seq_length\<close>; \<open>d\<close> divides \<open>seq_length\<close> and the second
  component times \<open>d\<close> is \<open>seq_length\<close>.
\<close>

theorem block_length_largest_divisor:
  fixes seq_length window_size :: int
  assumes "1 \<le> seq_length" and "seq_length < 9223372036854775808"
    and "2 \<le> window_size" and "window_size < 9223372036854775808"
  shows "\<exists>d. custom_get_block_length_and_num_blocks seq_length window_size
               = Inr (d, seq_length div d)
             \<and> 1 \<le> d \<and> d < window_size \<and> d dvd seq_length
             \<and> (\<forall>e. 1 \<le> e \<and> e < window_size \<and> e dvd seq_length \<longrightarrow> e \<le> d)
             \<and> (seq_length div d) * d = seq_length"
proof -
  let ?D = "filter (\<lambda>c. seq_length mod c = 0) [1..window_size - 1]"
  have set_D: "set ?D = {c. 1 \<le> c \<and> c < window_size \<and> c dvd seq_length}"
    by (auto simp: dvd_eq_mod_eq_0)
  have one: "1 \<in> set ?D" using assms by (simp add: set_D)
  have ne: "?D \<noteq> []" using one by (metis empty_iff empty_set)
  define d where "d = Max (set ?D)"
  have d_in: "d \<in> set ?D" unfolding d_def using ne by (rule Max_set_in)
  have d_max: "e \<le> d" if "e \<in> set ?D" for e
    unfolding d_def using that by (rule Max_set_ge)
  have unfold: "custom_get_block_length_and_num_blocks seq_length window_size =
     (case torch_max ?D of Inl e \<Rightarrow> Inl e | Inr d \<Rightarrow> Inr (d, seq_length div d))"
    using assms by (intro block_length_unfold) simp_all
  have res: "custom_get_block_length_and_num_blocks seq_length window_size
               = Inr (d, seq_length div d)"
    by (simp only: unfold torch_max_Max [OF ne] d_def sum.case)
  from d_in have props: "1 \<le> d" "d < window_size" "d dvd seq_length"
    by (simp_all only: set_D mem_Collect_eq)
  have "\<forall>e. 1 \<le> e \<and> e < window_size \<and> e dvd seq_length \<longrightarrow> e \<le> d"
    using d_max by (simp only: set_D mem_Collect_eq) blast
  moreover have "(seq_length div d) * d = seq_length"
    using props(3) by simp
  ultimately show ?thesis using res props by blast
qed

theorem block_length_largest_divisor_witness:
  "custom_get_block_length_and_num_blocks 12 5 = Inr (4, 3)"
proof -
  have "\<exists>d. custom_get_block_length_and_num_blocks 12 5 = Inr (d, 12 div d)
          \<and> 1 \<le> d \<and> d < 5 \<and> d dvd 12
          \<and> (\<forall>e. 1 \<le> e \<and> e < 5 \<and> e dvd 12 \<longrightarrow> e \<le> d)
          \<and> (12 div d) * d = 12"
    using block_length_largest_divisor [of 12 5] by simp
  then obtain d where r: "custom_get_block_length_and_num_blocks 12 5 = Inr (d, 12 div d)"
    and lo: "1 \<le> d" and hi: "d < 5" and dv: "d dvd 12"
    and mx: "\<forall>e. 1 \<le> e \<and> e < 5 \<and> e dvd 12 \<longrightarrow> e \<le> d"
    by blast
  from mx have "4 \<le> d" by simp
  with hi have "d = 4" by simp
  with r show ?thesis by simp
qed

text \<open>
  The claim C8 for every \<open>seq_length \<ge> 1\<close> fails from \<open>2^63\<close> on: \<^verbatim>\<open>torch.remainder\<close>
  cannot take the Python integer as a 64-bit scalar and raises RuntimeError, where the
  claim has the pair \<open>(4, 2^61)\<close>.
\<close>

theorem block_length_int64_counterexample:
  "(1::int) \<le> 9223372036854775808 \<and> (2::int) \<le> 5
   \<and> custom_get_block_length_and_num_blocks 9223372036854775808 5 = Inl RuntimeError"
  by (simp add: custom_get_block_length_and_num_blocks_def int64_scalar_def on_value_def)

section \<open>Properties of the stop-sequence trimming\<close>

lemma remove_stop_seq_suffix:
  "remove_stop_seq r s = (if suffix s r then take (length r - length s) r else r)"
proof (cases "s = []")
  case True
  then show ?thesis
    by (simp add: remove_stop_seq_def py_slice_from_def py_slice_to_def)
next
  case False
  then have neg: "- int (length s) < 0" by simp
  have n: "nat (int (length r) + - int (length s)) = length r - length s" by simp
  have sl: "py_slice_from (- int (length s)) r = drop (length r - length s) r"
    and st: "py_slice_to (- int (length s)) r = take (length r - length s) r"
    using neg by (simp_all only: py_slice_from_def py_slice_to_def if_True n)
  have "drop (length r - length s) r = s \<longleftrightarrow> suffix s r"
  proof
    assume "drop (length r - length s) r = s"
    then show "suffix s r" by (metis suffix_drop)
  next
    assume "suffix s r"
    then obtain p where "r = p @ s" by (auto simp: suffix_def)
    then show "drop (length r - length s) r = s" by simp
  qed
  then show ?thesis by (simp only: remove_stop_seq_def sl st)
qed

lemma HfApiEngine_trim_spec:
  "HfApiEngine_remove_stop_sequences r ss = trim_once_per_stop_sequence r ss"
  by (induction ss arbitrary: r) (simp_all add: remove_stop_seq_suffix)

lemma TransformersEngine_trim_spec:
  "TransformersEngine_loop r ss = trim_once_per_stop_sequence r ss"
  by (induction ss arbitrary: r) (simp_all add: remove_stop_seq_suffix)

lemma trim_example_exposed:
  "HfApiEngine_remove_stop_sequences ''ab'' [''a'', ''b''] = ''a''"
  by (simp add: remove_stop_seq_def py_slice_from_def py_slice_to_def)

lemma trim_example_twice:
  "HfApiEngine_remove_stop_sequences ''xbb'' [''b''] = ''xb''"
  by (simp add: remove_stop_seq_def py_slice_from_def py_slice_to_def)

text \<open>
  C10. The trimming of \<^verbatim>\<open>HfApiEngine.__call__\<close> and of \<^verbatim>\<open>TransformersEngine.__call__\<close> is
  the same function of the response and the list of stop sequences, namely one pass in list
  order that removes the stop sequence once where the current response ends with it. The
  result can still end with a stop sequence: removing a later one exposes an earlier one
  (response \<open>ab\<close>, stop sequences \<open>a\<close>, \<open>b\<close>), or the stop sequence is a suffix twice
  (response \<open>xbb\<close>, stop sequence \<open>b\<close>).
\<close>

theorem stop_sequence_trimming_same:
  "HfApiEngine_remove_stop_sequences response stop_sequences
     = trim_once_per_stop_sequence response stop_sequences
   \<and> TransformersEngine_remove_stop_sequences response (Some stop_sequences)
     = HfApiEngine_remove_stop_sequences response stop_sequences
   \<and> HfApiEngine_remove_stop_sequences (p @ s) [s] = p
   \<and> HfApiEngine_remove_stop_sequences ''ab'' [''a'', ''b''] = ''a''
   \<and> suffix ''a'' (HfApiEngine_remove_stop_sequences ''ab'' [''a'', ''b''])
   \<and> HfApiEngine_remove_stop_sequences ''xbb'' [''b''] = ''xb''
   \<and> suffix ''b'' (HfApiEngine_remove_stop_sequences ''xbb'' [''b''])"
proof (intro conjI)
  show "HfApiEngine_remove_stop_sequences response stop_sequences
          = trim_once_per_stop_sequence response stop_sequences"
    by (rule HfApiEngine_trim_spec)
  show "TransformersEngine_remove_stop_sequences response (Some stop_sequences)
          = HfApiEngine_remove_stop_sequences response stop_sequences"
    by (simp add: TransformersEngine_remove_stop_sequences_def HfApiEngine_trim_spec
        TransformersEngine_trim_spec)
  show "HfApiEngine_remove_stop_sequences (p @ s) [s] = p"
    by (simp add: remove_stop_seq_suffix suffix_def)
  show "HfApiEngine_remove_stop_sequences ''ab'' [''a'', ''b''] = ''a''"
    by (rule trim_example_exposed)
  show "suffix ''a'' (HfApiEngine_remove_stop_sequences ''ab'' [''a'', ''b''])"
    unfolding trim_example_exposed by (simp add: suffix_def)
  show "HfApiEngine_remove_stop_sequences ''xbb'' [''b''] = ''xb''"
    by (rule trim_example_twice)
  show "suffix ''b'' (HfApiEngine_remove_stop_sequences ''xbb'' [''b''])"
    unfolding trim_example_twice by (simp add: suffix_def)
qed

section \<open>Properties of the GPT-Neo configuration\<close>

lemma extend_times_concat:
  "extend_times n types attentions = attentions @ concat (replicate n types)"
proof (induction n arbitrary: attentions)
  case 0
  show ?case by simp
next
  case (Suc n)
  have "concat (replicate (Suc n) types) = types @ concat (replicate n types)" by simp
  then show ?case by (simp only: extend_times.simps Suc.IH append_assoc)
qed

lemma expand_loop_concat:
  "expand_loop items attentions =
     attentions @ concat (map (\<lambda>item. concat (replicate (nat (snd item)) (fst item))) items)"
  by (induction items arbitrary: attentions) (simp_all add: extend_times_concat)

lemma expand_concat:
  "expand_attention_types_params ats =
     concat (map (\<lambda>item. concat (replicate (nat (snd item)) (fst item))) ats)"
  by (simp add: expand_attention_types_params_def expand_loop_concat)

lemma length_concat_replicate: "length (concat (replicate n xs)) = length xs * n"
  by (induction n) simp_all

lemma expand_length:
  "length (expand_attention_types_params ats) =
     sum_list (map (\<lambda>item. length (fst item) * nat (snd item)) ats)"
  by (induction ats) (simp_all add: expand_concat length_concat_replicate)

lemma expand_length_nonneg:
  "\<forall>item \<in> set ats. 0 \<le> snd item \<Longrightarrow>
   int (length (expand_attention_types_params ats)) = claimed_expanded_length ats"
  by (induction ats)
    (simp_all add: expand_concat length_concat_replicate claimed_expanded_length_def)

lemma GPTNeoConfig_init_unfold:
  "GPTNeoConfig_init a kw =
    (if int (length (expand_attention_types_params (attention_types a))) \<noteq> num_layers a
     then Inl (LayersValueError (length (expand_attention_types_params (attention_types a)))
                (num_layers a))
     else Inr (PretrainedConfig_init (GPTNeoConfig_self a) (bos_token_id a) (eos_token_id a) kw))"
  by (simp add: GPTNeoConfig_init_def GPTNeoConfig_self_def Let_def setattr_def
      attribute_name_def attribute_map_def)

lemma GPTNeoConfig_self_keys: "map fst (GPTNeoConfig_self a) = GPTNeoConfig_attributes"
  by (simp add: GPTNeoConfig_self_def GPTNeoConfig_attributes_def)

lemma GPTNeoConfig_self_attrs:
  "map_of (GPTNeoConfig_self a) ''vocab_size'' = Some (vocab_size a)
   \<and> map_of (GPTNeoConfig_self a) ''max_position_embeddings'' = Some (max_position_embeddings a)
   \<and> map_of (GPTNeoConfig_self a) ''hidden_size'' = Some (hidden_size a)
   \<and> map_of (GPTNeoConfig_self a) ''num_layers'' = Some (PInt (num_layers a))
   \<and> map_of (GPTNeoConfig_self a) ''num_heads'' = Some (num_heads a)
   \<and> map_of (GPTNeoConfig_self a) ''intermediate_size'' = Some (intermediate_size a)
   \<and> map_of (GPTNeoConfig_self a) ''window_size'' = Some (window_size a)
   \<and> map_of (GPTNeoConfig_self a) ''activation_function'' = Some (activation_function a)
   \<and> map_of (GPTNeoConfig_self a) ''resid_dropout'' = Some (resid_dropout a)
   \<and> map_of (GPTNeoConfig_self a) ''embed_dropout'' = Some (embed_dropout a)
   \<and> map_of (GPTNeoConfig_self a) ''attention_dropout'' = Some (attention_dropout a)
   \<and> map_of (GPTNeoConfig_self a) ''layer_norm_epsilon'' = Some (layer_norm_epsilon a)
   \<and> map_of (GPTNeoConfig_self a) ''initializer_range'' = Some (initializer_range a)
   \<and> map_of (GPTNeoConfig_self a) ''summary_type'' = Some (summary_type a)
   \<and> map_of (GPTNeoConfig_self a) ''summary_use_proj'' = Some (summary_use_proj a)
   \<and> map_of (GPTNeoConfig_self a) ''summary_activation'' = Some (summary_activation a)
   \<and> map_of (GPTNeoConfig_self a) ''summary_first_dropout'' = Some (summary_first_dropout a)
   \<and> map_of (GPTNeoConfig_self a) ''summary_proj_to_labels'' = Some (summary_proj_to_labels a)
   \<and> map_of (GPTNeoConfig_self a) ''vocab_parallel_embedding'' = Some (vocab_parallel_embedding a)
   \<and> map_of (GPTNeoConfig_self a) ''make_vocab_size_divisible_by'' = Some (make_vocab_size_divisible_by a)
   \<and> map_of (GPTNeoConfig_self a) ''use_cache'' = Some (use_cache a)
   \<and> map_of (GPTNeoConfig_self a) ''bos_token_id'' = Some (bos_token_id a)
   \<and> map_of (GPTNeoConfig_self a) ''eos_token_id'' = Some (eos_token_id a)
   \<and> map_of (GPTNeoConfig_self a) ''attention_types'' = Some (attention_types_value (attention_types a))
   \<and> map_of (GPTNeoConfig_self a) ''attention_layers'' = Some (str_list_value (expand_attention_types_params (attention_types a)))"
  by (simp add: GPTNeoConfig_self_def)

lemma attribute_name_own:
  "name \<in> set GPTNeoConfig_attributes \<Longrightarrow> attribute_name name = name"
  by (auto simp: GPTNeoConfig_attributes_def attribute_name_def attribute_map_def)

lemma map_of_setattr:
  "map_of (setattr self name v) n = (if n = attribute_name name then Some v else map_of self n)"
  by (simp add: setattr_def update_conv')

lemma keys_setattr: "fst ` set (setattr self name v) = insert (attribute_name name) (fst ` set self)"
  by (simp add: setattr_def dom_update)

lemma map_of_fold_setattr:
  "n \<notin> attribute_name ` fst ` set kw \<Longrightarrow>
   map_of (fold (\<lambda>kv self. setattr self (fst kv) (snd kv)) kw self) n = map_of self n"
  by (induction kw arbitrary: self) (simp_all add: map_of_setattr)

lemma keys_fold_setattr:
  "fst ` set (fold (\<lambda>kv self. setattr self (fst kv) (snd kv)) kw self)
     = fst ` set self \<union> attribute_name ` fst ` set kw"
  by (induction kw arbitrary: self) (auto simp: keys_setattr)

lemma map_of_token_ids:
  "map_of (setattr (setattr (GPTNeoConfig_self a) ''bos_token_id'' (bos_token_id a))
             ''eos_token_id'' (eos_token_id a)) n
     = map_of (GPTNeoConfig_self a) n"
  by (simp add: map_of_setattr attribute_name_def attribute_map_def GPTNeoConfig_self_attrs)

lemma keys_token_ids:
  "fst ` set (setattr (setattr (GPTNeoConfig_self a) ''bos_token_id'' (bos_token_id a))
             ''eos_token_id'' (eos_token_id a))
     = set GPTNeoConfig_attributes"
proof -
  have "''bos_token_id'' \<in> set GPTNeoConfig_attributes"
    and "''eos_token_id'' \<in> set GPTNeoConfig_attributes"
    by (simp_all add: GPTNeoConfig_attributes_def)
  moreover have "fst ` set (GPTNeoConfig_self a) = set GPTNeoConfig_attributes"
    using GPTNeoConfig_self_keys [of a] by (metis set_map)
  ultimately show ?thesis
    by (auto simp: keys_setattr attribute_name_def attribute_map_def)
qed

lemma PretrainedConfig_init_own:
  assumes "\<forall>k \<in> set (map fst kwargs). attribute_name k \<notin> set GPTNeoConfig_attributes"
    and "name \<in> set GPTNeoConfig_attributes"
  shows "getattr (PretrainedConfig_init (GPTNeoConfig_self a) (bos_token_id a) (eos_token_id a) kwargs)
           name = map_of (GPTNeoConfig_self a) name"
proof -
  from assms have "name \<notin> attribute_name ` fst ` set kwargs" by auto
  then show ?thesis
    using assms(2)
    by (simp add: getattr_def PretrainedConfig_init_def attribute_name_own map_of_fold_setattr
        map_of_token_ids)
qed

lemma PretrainedConfig_init_keys:
  "fst ` set (PretrainedConfig_init (GPTNeoConfig_self a) (bos_token_id a) (eos_token_id a) kwargs)
     = set GPTNeoConfig_attributes \<union> attribute_name ` fst ` set kwargs"
  by (simp only: PretrainedConfig_init_def keys_fold_setattr keys_token_ids)

lemma default_layers:
  "expand_attention_types_params [([''global'', ''local''], 12)]
     = concat (replicate 12 [''global'', ''local''])"
  by (simp add: expand_concat)

lemma default_layers_length:
  "length (expand_attention_types_params [([''global'', ''local''], 12)]) = 24"
  by (simp add: expand_length)

lemma default_layers_concat_length:
  "length (concat (replicate 12 [''global'', ''local''])) = 24"
  using default_layers_length by (simp only: default_layers)

lemma example_layers:
  "expand_attention_types_params [([''global''], 2), ([''local''], 1)]
     = [''global'', ''global'', ''local'']"
  by (simp add: expand_concat numeral_2_eq_2)

text \<open>
  C3, as the code has it. For keyword arguments that name neither \<open>attention_layers\<close> nor
  an alias of \<^verbatim>\<open>attribute_map\<close> (\<open>num_hidden_layers\<close>, \<open>num_attention_heads\<close>), and for
  arguments that pass the check of the number of layers, the construction returns an object
  in which every named argument of \<^verbatim>\<open>GPTNeoConfig.__init__\<close> is the value of the attribute
  of the same name and \<open>attention_layers\<close> is the expansion of \<open>attention_types\<close>; its
  attributes are the ones assigned by the initializer and the keyword arguments, so every
  value is an argument or the expansion, and no tensor.
\<close>

theorem GPTNeoConfig_init_stores_arguments:
  assumes kw: "\<forall>k \<in> set (map fst kwargs). attribute_name k \<notin> set GPTNeoConfig_attributes"
    and layers: "int (length (expand_attention_types_params (attention_types a))) = num_layers a"
  shows "\<exists>cfg. GPTNeoConfig_init a kwargs = Inr cfg
     \<and> fst ` set cfg = set GPTNeoConfig_attributes \<union> attribute_name ` fst ` set kwargs
     \<and> (getattr cfg ''vocab_size'' = Some (vocab_size a)
        \<and> getattr cfg ''max_position_embeddings'' = Some (max_position_embeddings a)
        \<and> getattr cfg ''hidden_size'' = Some (hidden_size a)
        \<and> getattr cfg ''num_layers'' = Some (PInt (num_layers a))
        \<and> getattr cfg ''num_heads'' = Some (num_heads a)
        \<and> getattr cfg ''intermediate_size'' = Some (intermediate_size a)
        \<and> getattr cfg ''window_size'' = Some (window_size a)
        \<and> getattr cfg ''activation_function'' = Some (activation_function a)
        \<and> getattr cfg ''resid_dropout'' = Some (resid_dropout a)
        \<and> getattr cfg ''embed_dropout'' = Some (embed_dropout a)
        \<and> getattr cfg ''attention_dropout'' = Some (attention_dropout a)
        \<and> getattr cfg ''layer_norm_epsilon'' = Some (layer_norm_epsilon a)
        \<and> getattr cfg ''initializer_range'' = Some (initializer_range a)
        \<and> getattr cfg ''summary_type'' = Some (summary_type a)
        \<and> getattr cfg ''summary_use_proj'' = Some (summary_use_proj a)
        \<and> getattr cfg ''summary_activation'' = Some (summary_activation a)
        \<and> getattr cfg ''summary_first_dropout'' = Some (summary_first_dropout a)
        \<and> getattr cfg ''summary_proj_to_labels'' = Some (summary_proj_to_labels a)
        \<and> getattr cfg ''vocab_parallel_embedding'' = Some (vocab_parallel_embedding a)
        \<and> getattr cfg ''make_vocab_size_divisible_by'' = Some (make_vocab_size_divisible_by a)
        \<and> getattr cfg ''use_cache'' = Some (use_cache a)
        \<and> getattr cfg ''bos_token_id'' = Some (bos_token_id a)
        \<and> getattr cfg ''eos_token_id'' = Some (eos_token_id a)
        \<and> getattr cfg ''attention_types'' = Some (attention_types_value (attention_types a))
        \<and> getattr cfg ''attention_layers'' = Some (str_list_value (expand_attention_types_params (attention_types a))))"
proof -
  let ?cfg = "PretrainedConfig_init (GPTNeoConfig_self a) (bos_token_id a) (eos_token_id a) kwargs"
  have res: "GPTNeoConfig_init a kwargs = Inr ?cfg"
    using layers by (simp add: GPTNeoConfig_init_unfold)
  have keys: "fst ` set ?cfg = set GPTNeoConfig_attributes \<union> attribute_name ` fst ` set kwargs"
    by (rule PretrainedConfig_init_keys)
  have "\<forall>name \<in> set GPTNeoConfig_attributes. getattr ?cfg name = map_of (GPTNeoConfig_self a) name"
    using PretrainedConfig_init_own [OF kw] by blast
  then have attrs: "getattr ?cfg ''vocab_size'' = Some (vocab_size a)
        \<and> getattr ?cfg ''max_position_embeddings'' = Some (max_position_embeddings a)
        \<and> getattr ?cfg ''hidden_size'' = Some (hidden_size a)
        \<and> getattr ?cfg ''num_layers'' = Some (PInt (num_layers a))
        \<and> getattr ?cfg ''num_heads'' = Some (num_heads a)
        \<and> getattr ?cfg ''intermediate_size'' = Some (intermediate_size a)
        \<and> getattr ?cfg ''window_size'' = Some (window_size a)
        \<and> getattr ?cfg ''activation_function'' = Some (activation_function a)
        \<and> getattr ?cfg ''resid_dropout'' = Some (resid_dropout a)
        \<and> getattr ?cfg ''embed_dropout'' = Some (embed_dropout a)
        \<and> getattr ?cfg ''attention_dropout'' = Some (attention_dropout a)
        \<and> getattr ?cfg ''layer_norm_epsilon'' = Some (layer_norm_epsilon a)
        \<and> getattr ?cfg ''initializer_range'' = Some (initializer_range a)
        \<and> getattr ?cfg ''summary_type'' = Some (summary_type a)
        \<and> getattr ?cfg ''summary_use_proj'' = Some (summary_use_proj a)
        \<and> getattr ?cfg ''summary_activation'' = Some (summary_activation a)
        \<and> getattr ?cfg ''summary_first_dropout'' = Some (summary_first_dropout a)
        \<and> getattr ?cfg ''summary_proj_to_labels'' = Some (summary_proj_to_labels a)
        \<and> getattr ?cfg ''vocab_parallel_embedding'' = Some (vocab_parallel_embedding a)
        \<and> getattr ?cfg ''make_vocab_size_divisible_by'' = Some (make_vocab_size_divisible_by a)
        \<and> getattr ?cfg ''use_cache'' = Some (use_cache a)
        \<and> getattr ?cfg ''bos_token_id'' = Some (bos_token_id a)
        \<and> getattr ?cfg ''eos_token_id'' = Some (eos_token_id a)
        \<and> getattr ?cfg ''attention_types'' = Some (attention_types_value (attention_types a))
        \<and> getattr ?cfg ''attention_layers'' = Some (str_list_value (expand_attention_types_params (attention_types a)))"
    by (simp add: GPTNeoConfig_attributes_def GPTNeoConfig_self_attrs)
  show ?thesis
    by (rule exI [of _ ?cfg]) (intro conjI res keys attrs)
qed

theorem GPTNeoConfig_init_stores_arguments_witness:
  "\<exists>cfg. GPTNeoConfig_init GPTNeoConfig_example [(''return_dict'', PBool False)] = Inr cfg
     \<and> getattr cfg ''vocab_size'' = Some (PInt 100)
     \<and> getattr cfg ''num_layers'' = Some (PInt 3)
     \<and> getattr cfg ''use_cache'' = Some (PBool False)
     \<and> getattr cfg ''hidden_size'' = Some (PInt 2048)
     \<and> getattr cfg ''attention_layers'' = Some (str_list_value [''global'', ''global'', ''local''])"
proof -
  have kw: "\<forall>k \<in> set (map fst [(''return_dict'', PBool False)]).
              attribute_name k \<notin> set GPTNeoConfig_attributes"
    by (simp add: attribute_name_def attribute_map_def GPTNeoConfig_attributes_def)
  have layers: "int (length (expand_attention_types_params (attention_types GPTNeoConfig_example)))
                  = num_layers GPTNeoConfig_example"
    by (simp add: GPTNeoConfig_example_def GPTNeoConfig_defaults_def example_layers)
  from GPTNeoConfig_init_stores_arguments [OF kw layers]
  obtain cfg where r: "GPTNeoConfig_init GPTNeoConfig_example [(''return_dict'', PBool False)] = Inr cfg"
    and v: "getattr cfg ''vocab_size'' = Some (vocab_size GPTNeoConfig_example)"
    and n: "getattr cfg ''num_layers'' = Some (PInt (num_layers GPTNeoConfig_example))"
    and u: "getattr cfg ''use_cache'' = Some (use_cache GPTNeoConfig_example)"
    and h: "getattr cfg ''hidden_size'' = Some (hidden_size GPTNeoConfig_example)"
    and l: "getattr cfg ''attention_layers''
              = Some (str_list_value (expand_attention_types_params (attention_types GPTNeoConfig_example)))"
    by (elim exE conjE)
  have e: "vocab_size GPTNeoConfig_example = PInt 100" "num_layers GPTNeoConfig_example = 3"
    "use_cache GPTNeoConfig_example = PBool False" "hidden_size GPTNeoConfig_example = PInt 2048"
    "expand_attention_types_params (attention_types GPTNeoConfig_example)
       = [''global'', ''global'', ''local'']"
    by (simp_all add: GPTNeoConfig_example_def GPTNeoConfig_defaults_def example_layers)
  show ?thesis
    by (rule exI [of _ cfg]) (use r v n u h l in \<open>simp only: e simp_thms\<close>)
qed

text \<open>
  The claim C3 for every choice of constructor arguments fails for a keyword argument that
  is an alias of \<^verbatim>\<open>attribute_map\<close>: \<^verbatim>\<open>GPTNeoConfig(num_hidden_layers=5)\<close> passes the check
  with the default 24 layers, and the superclass initializer then stores 5 as
  \<open>num_layers\<close>, so the argument \<open>num_layers\<close> is not the attribute of the result. A keyword
  argument \<open>attention_layers\<close> replaces the expansion in the same way.
\<close>

theorem GPTNeoConfig_init_alias_counterexample:
  "num_layers GPTNeoConfig_defaults = 24
   \<and> constructed_attribute
       (GPTNeoConfig_init GPTNeoConfig_defaults [(''num_hidden_layers'', PInt 5)]) ''num_layers''
     = Some (PInt 5)
   \<and> constructed_attribute
       (GPTNeoConfig_init GPTNeoConfig_defaults [(''attention_layers'', PList [])])
       ''attention_layers''
     = Some (PList [])"
  by (simp add: GPTNeoConfig_init_unfold default_layers_length GPTNeoConfig_defaults_def
      constructed_attribute_def PretrainedConfig_init_def getattr_def map_of_setattr
      attribute_name_def attribute_map_def)

text \<open>
  C9. \<open>expand_attention_types_params\<close> returns the concatenation, over the entries in
  order, of each entry's type list repeated count times, so its length is the sum over the
  entries of the number of listed types times the repetition count (the counts of the
  format \<^verbatim>\<open>[[["attention_type"], num_layers]]\<close> are numbers of layers, not negative).
  The construction raises ValueError if and only if this length differs from \<open>num_layers\<close>;
  with the default \<open>attention_types\<close> and 24 layers the layers alternate global, local and
  the construction succeeds.
\<close>

theorem expand_attention_types_params_layers:
  assumes "\<forall>item \<in> set ats. 0 \<le> snd item"
  shows "expand_attention_types_params ats
           = concat (map (\<lambda>item. concat (replicate (nat (snd item)) (fst item))) ats)
     \<and> int (length (expand_attention_types_params ats)) = claimed_expanded_length ats
     \<and> ((\<exists>e. GPTNeoConfig_init a kwargs = Inl e)
           \<longleftrightarrow> int (length (expand_attention_types_params (attention_types a))) \<noteq> num_layers a)
     \<and> (\<forall>e. GPTNeoConfig_init a kwargs = Inl e \<longrightarrow>
           e = LayersValueError (length (expand_attention_types_params (attention_types a)))
                 (num_layers a))
     \<and> expand_attention_types_params [([''global'', ''local''], 12)]
           = concat (replicate 12 [''global'', ''local''])
     \<and> (\<exists>cfg. GPTNeoConfig_init
                 (a\<lparr>attention_types := [([''global'', ''local''], 12)], num_layers := 24\<rparr>) kwargs
               = Inr cfg)
     \<and> constructed_attribute (GPTNeoConfig_init GPTNeoConfig_defaults []) ''attention_layers''
           = Some (str_list_value (concat (replicate 12 [''global'', ''local''])))"
proof (intro conjI)
  show "expand_attention_types_params ats
           = concat (map (\<lambda>item. concat (replicate (nat (snd item)) (fst item))) ats)"
    by (rule expand_concat)
  show "int (length (expand_attention_types_params ats)) = claimed_expanded_length ats"
    using assms by (rule expand_length_nonneg)
  show "(\<exists>e. GPTNeoConfig_init a kwargs = Inl e)
           \<longleftrightarrow> int (length (expand_attention_types_params (attention_types a))) \<noteq> num_layers a"
    by (simp add: GPTNeoConfig_init_unfold)
  show "\<forall>e. GPTNeoConfig_init a kwargs = Inl e \<longrightarrow>
           e = LayersValueError (length (expand_attention_types_params (attention_types a)))
                 (num_layers a)"
    by (auto simp: GPTNeoConfig_init_unfold split: if_splits)
  show "expand_attention_types_params [([''global'', ''local''], 12)]
           = concat (replicate 12 [''global'', ''local''])"
    by (rule default_layers)
  show "\<exists>cfg. GPTNeoConfig_init
                 (a\<lparr>attention_types := [([''global'', ''local''], 12)], num_layers := 24\<rparr>) kwargs
               = Inr cfg"
    by (simp add: GPTNeoConfig_init_unfold default_layers_length)
  have "''attention_layers'' \<in> set GPTNeoConfig_attributes"
    by (simp add: GPTNeoConfig_attributes_def)
  then have "getattr (PretrainedConfig_init (GPTNeoConfig_self GPTNeoConfig_defaults)
               (bos_token_id GPTNeoConfig_defaults) (eos_token_id GPTNeoConfig_defaults) [])
               ''attention_layers''
             = map_of (GPTNeoConfig_self GPTNeoConfig_defaults) ''attention_layers''"
    by (intro PretrainedConfig_init_own) simp_all
  moreover have "attention_types GPTNeoConfig_defaults = [([''global'', ''local''], 12)]"
    and "num_layers GPTNeoConfig_defaults = 24"
    by (simp_all add: GPTNeoConfig_defaults_def)
  ultimately show "constructed_attribute (GPTNeoConfig_init GPTNeoConfig_defaults []) ''attention_layers''
           = Some (str_list_value (concat (replicate 12 [''global'', ''local''])))"
    by (simp add: constructed_attribute_def GPTNeoConfig_init_unfold
        default_layers_concat_length GPTNeoConfig_self_attrs default_layers)
qed

theorem expand_attention_types_params_layers_witness:
  "expand_attention_types_params [([''global''], 2), ([''local''], 1)]
     = [''global'', ''global'', ''local'']
   \<and> claimed_expanded_length [([''global''], 2), ([''local''], 1)] = 3
   \<and> GPTNeoConfig_init (GPTNeoConfig_example\<lparr>num_layers := 4\<rparr>) []
       = Inl (LayersValueError 3 4)"
proof -
  have nonneg: "\<forall>item \<in> set [([''global''], 2), ([''local''], 1 :: int)]. 0 \<le> snd item"
    by simp
  note t = expand_attention_types_params_layers
      [OF nonneg, of "GPTNeoConfig_example\<lparr>num_layers := 4\<rparr>" "[]"]
  have at: "attention_types (GPTNeoConfig_example\<lparr>num_layers := 4\<rparr>)
              = [([''global''], 2), ([''local''], 1)]"
    and nl: "num_layers (GPTNeoConfig_example\<lparr>num_layers := 4\<rparr>) = 4"
    by (simp_all add: GPTNeoConfig_example_def GPTNeoConfig_defaults_def)
  have x: "expand_attention_types_params [([''global''], 2), ([''local''], 1)]
     = [''global'', ''global'', ''local'']"
    using t [THEN conjunct1] by (simp add: numeral_2_eq_2)
  have c: "claimed_expanded_length [([''global''], 2), ([''local''], 1)] = 3"
    using t [THEN conjunct2, THEN conjunct1] by (simp only: x) simp
  have "\<exists>e. GPTNeoConfig_init (GPTNeoConfig_example\<lparr>num_layers := 4\<rparr>) [] = Inl e"
    using t [THEN conjunct2, THEN conjunct2, THEN conjunct1] by (simp add: at nl x)
  then obtain e where e: "GPTNeoConfig_init (GPTNeoConfig_example\<lparr>num_layers := 4\<rparr>) [] = Inl e"
    by (elim exE)
  with t [THEN conjunct2, THEN conjunct2, THEN conjunct2, THEN conjunct1]
  have "e = LayersValueError 3 4" by (simp add: at nl x)
  with e x c show ?thesis by simp
qed

section \<open>Properties of the message-role normalizer\<close>

subsection \<open>Runs and the loop on values\<close>

lemma join_assoc: "str_join sep ((c @ sep @ d) # cs) = str_join sep (c # d # cs)"
  by (cases cs) simp_all

lemma merge_loop_prefix:
  "merge_loop (acc @ [(r, c)]) xs = acc @ merge_loop [(r, c)] xs"
proof (induction xs arbitrary: acc r c)
  case Nil
  show ?case by simp
next
  case (Cons x xs)
  show ?case
  proof (cases "fst x = r")
    case True
    then show ?thesis using Cons.IH [of acc r "c @ separator @ snd x"] by simp
  next
    case False
    obtain r' c' where x: "x = (r', c')" by (cases x)
    have "merge_loop (acc @ [(r, c)]) (x # xs) = merge_loop ((acc @ [(r, c)]) @ [(r', c')]) xs"
      using False x by simp
    also have "\<dots> = (acc @ [(r, c)]) @ merge_loop [(r', c')] xs" by (rule Cons.IH)
    also have "\<dots> = acc @ merge_loop ([(r, c)] @ [(r', c')]) xs"
      by (simp only: Cons.IH [of "[(r, c)]" r' c'] append_assoc)
    also have "\<dots> = acc @ merge_loop [(r, c)] (x # xs)" using False x by simp
    finally show ?thesis .
  qed
qed

lemma merge_loop_run:
  "merge_loop [(r, c)] xs =
     (r, str_join separator (c # map snd (takeWhile (\<lambda>x. fst x = r) xs)))
       # merge_loop [] (dropWhile (\<lambda>x. fst x = r) xs)"
proof (induction xs arbitrary: c)
  case Nil
  show ?case by simp
next
  case (Cons x xs)
  show ?case
  proof (cases "fst x = r")
    case True
    then show ?thesis
      using Cons.IH [of "c @ separator @ snd x"] by (simp add: join_assoc)
  next
    case False
    obtain r' c' where x: "x = (r', c')" by (cases x)
    have "merge_loop [(r, c)] (x # xs) = merge_loop ([(r, c)] @ [(r', c')]) xs"
      using False x by simp
    also have "\<dots> = [(r, c)] @ merge_loop [(r', c')] xs" by (rule merge_loop_prefix)
    finally show ?thesis using False x by simp
  qed
qed

lemma merge_loop_runs: "merge_loop [] xs = merged_runs xs"
proof (induction xs rule: role_runs.induct)
  case 1
  show ?case by (simp add: merged_runs_def)
next
  case (2 r c xs)
  have "merge_loop [] ((r, c) # xs) = merge_loop [(r, c)] xs" by simp
  then show ?case using 2 by (simp add: merge_loop_run merged_runs_def)
qed

lemma runs_concat: "concat (map (\<lambda>run. map (Pair (fst run)) (snd run)) (role_runs xs)) = xs"
proof (induction xs rule: role_runs.induct)
  case 1
  show ?case by simp
next
  case (2 r c xs)
  have "map (Pair r) (map snd (takeWhile (\<lambda>x. fst x = r) xs)) = takeWhile (\<lambda>x. fst x = r) xs"
    by (induction xs) auto
  then show ?case using 2 by simp
qed

lemma runs_nonempty: "\<forall>run \<in> set (role_runs xs). snd run \<noteq> []"
  by (induction xs rule: role_runs.induct) simp_all

lemma runs_distinct_adj: "distinct_adj (map fst (role_runs xs))"
proof (induction xs rule: role_runs.induct)
  case 1
  show ?case by simp
next
  case (2 r c xs)
  let ?d = "dropWhile (\<lambda>x. fst x = r) xs"
  show ?case
  proof (cases ?d)
    case Nil
    then show ?thesis by (simp only: role_runs.simps list.map distinct_adj_singleton)
  next
    case (Cons y ys)
    obtain r' c' where y: "y = (r', c')" by (cases y)
    have "?d \<noteq> []" using Cons by simp
    then have "fst (hd ?d) \<noteq> r" using hd_dropWhile by blast
    then have ne: "r \<noteq> r'" using Cons y by auto
    have ih: "distinct_adj (map fst (role_runs (y # ys)))" using 2 Cons by simp
    have "map fst (role_runs ((r, c) # xs)) = r # map fst (role_runs (y # ys))"
      by (simp only: role_runs.simps list.map fst_conv Cons)
    then show ?thesis using ih ne y by (simp add: distinct_adj_Cons_Cons)
  qed
qed

subsection \<open>Dictionaries\<close>

lemma dict_keys_setitem: "dict_keys (dict_setitem d k v) = insert k (dict_keys d)"
  by (simp add: dict_keys_def dict_setitem_def dom_update)

lemma map_of_setitem:
  "map_of (dict_setitem d k v) k' = (if k' = k then Some v else map_of d k')"
  by (simp add: dict_setitem_def update_conv')

lemma item_setitem: "dict_item (dict_setitem d k v) k' = (if k' = k then v else dict_item d k')"
  by (simp add: dict_item_def map_of_setitem)

lemma keys_lookup: "k \<in> dict_keys d \<Longrightarrow> map_of d k = Some (dict_item d k)"
proof -
  assume "k \<in> dict_keys d"
  then have "map_of d k \<noteq> None" by (simp add: dict_keys_def map_of_eq_None_iff)
  then show ?thesis by (auto simp: dict_item_def)
qed

lemma getitem_keys: "k \<in> dict_keys d \<Longrightarrow> dict_getitem d k = Inr (dict_item d k)"
  by (simp add: dict_getitem_def keys_lookup)

lemma setitem_same: "k \<in> dict_keys d \<Longrightarrow> dict_setitem d k (dict_item d k) = d"
  by (simp add: dict_setitem_def update_triv keys_lookup)

lemma supported_message_iff:
  "supported_message d \<longleftrightarrow>
     dict_keys d = {''role'', ''content''} \<and> dict_item d ''role'' \<in> set MessageRole_roles"
proof (cases "dict_keys d = {''role'', ''content''}")
  case True
  then have "map_of d ''role'' = Some (dict_item d ''role'')" by (simp add: keys_lookup)
  then show ?thesis using True by (simp add: supported_message_def)
next
  case False
  then show ?thesis by (simp add: supported_message_def)
qed

lemma clean_step_unsupported:
  assumes "\<not> supported_message (h ! m)"
  shows "clean_step conv (h, final) m =
           Inl (if dict_keys (h ! m) \<noteq> {''role'', ''content''} then KeysValueError
                else RoleValueError (dict_item (h ! m) ''role''))"
proof (cases "dict_keys (h ! m) = {''role'', ''content''}")
  case False
  then show ?thesis by (simp add: clean_step_def)
next
  case True
  then have g: "dict_getitem (h ! m) ''role'' = Inr (dict_item (h ! m) ''role'')"
    by (simp add: getitem_keys)
  from True assms have "dict_item (h ! m) ''role'' \<notin> set MessageRole_roles"
    by (simp add: supported_message_iff)
  then show ?thesis using True g by (simp add: clean_step_def on_value_def)
qed

lemma clean_step_supported:
  assumes sup: "supported_message (h ! m)" and m: "m < length h"
    and fin: "\<forall>a \<in> set final. a < length h \<and> dict_keys (h ! a) = {''role'', ''content''}"
  shows "clean_step conv (h, final) m = Inr (step_state conv h final m)"
proof -
  let ?r = "dict_item (h ! m) ''role''"
  let ?h1 = "h[m := dict_setitem (h ! m) ''role'' (convert_role conv ?r)]"
  from sup have keys: "dict_keys (h ! m) = {''role'', ''content''}"
    and role: "?r \<in> set MessageRole_roles"
    by (simp_all add: supported_message_iff)
  have g: "dict_getitem (h ! m) ''role'' = Inr ?r" using keys by (simp add: getitem_keys)
  have h1: "(case map_of conv ?r of
               Some converted \<Rightarrow> h[m := dict_setitem (h ! m) ''role'' converted]
             | None \<Rightarrow> h) = ?h1"
  proof (cases "map_of conv ?r")
    case None
    then have "convert_role conv ?r = ?r" by (simp add: convert_role_def)
    then show ?thesis using None keys by (simp add: setitem_same)
  next
    case (Some c)
    then show ?thesis by (simp add: convert_role_def)
  qed
  have k1: "dict_keys (?h1 ! a) = {''role'', ''content''}"
    if "a < length h" "dict_keys (h ! a) = {''role'', ''content''}" for a
    using that keys by (cases "a = m") (auto simp: dict_keys_setitem)
  have gm: "dict_getitem (?h1 ! m) k = Inr (dict_item (?h1 ! m) k)" if "k \<in> {''role'', ''content''}" for k
    using k1 [OF m keys] that by (intro getitem_keys) simp
  show ?thesis
  proof (cases "final = []")
    case True
    then show ?thesis
      using keys g role h1 by (simp add: clean_step_def on_value_def step_state_def Let_def)
  next
    case False
    then have "last final \<in> set final" by simp
    with fin have lf: "last final < length h"
      and kl: "dict_keys (h ! last final) = {''role'', ''content''}" by blast+
    have gl: "dict_getitem (?h1 ! last final) k = Inr (dict_item (?h1 ! last final) k)"
      if "k \<in> {''role'', ''content''}" for k
      using k1 [OF lf kl] that by (intro getitem_keys) simp
    show ?thesis
      using keys g role False
      by (simp add: clean_step_def on_value_def step_state_def h1 gm gl Let_def
          del: nth_list_update_eq nth_list_update_neq nth_list_update)
  qed
qed

lemma conversions_supportedD:
  "conversions_supported conv \<Longrightarrow> r \<in> set MessageRole_roles
   \<Longrightarrow> convert_role conv r \<in> set MessageRole_roles"
  by (simp add: conversions_supported_def list_all_iff)

lemma step_state_length: "length (fst (step_state conv h final m)) = length h"
  by (simp add: step_state_def Let_def)

lemma step_state_final:
  "snd (step_state conv h final m) = final \<or> snd (step_state conv h final m) = final @ [m]"
  by (simp add: step_state_def Let_def)

lemma step_state_frame:
  assumes "a \<noteq> m" and "a \<notin> set final"
  shows "fst (step_state conv h final m) ! a = h ! a"
proof (cases "final = []")
  case True
  then show ?thesis using assms by (simp add: step_state_def Let_def)
next
  case False
  then have "last final \<in> set final" by simp
  with assms have "a \<noteq> last final" by auto
  then show ?thesis using assms by (simp add: step_state_def Let_def)
qed

lemma step_state_keys:
  assumes "a < length h" and "dict_keys (h ! a) = {''role'', ''content''}"
  shows "dict_keys (fst (step_state conv h final m) ! a) = {''role'', ''content''}"
proof -
  let ?h1 = "h[m := dict_setitem (h ! m) ''role'' (convert_role conv (dict_item (h ! m) ''role''))]"
  have k1: "dict_keys (?h1 ! a) = {''role'', ''content''}"
    using assms by (cases "a = m") (auto simp: dict_keys_setitem)
  have "dict_keys (?h1[l := dict_setitem (?h1 ! l) ''content'' v] ! a) = {''role'', ''content''}"
    for l v
    using k1 assms(1) by (cases "a = l") (auto simp: dict_keys_setitem simp del: nth_list_update)
  then show ?thesis using k1 by (simp add: step_state_def Let_def del: nth_list_update)
qed

lemma step_state_role_other:
  assumes "a \<noteq> m"
  shows "dict_item (fst (step_state conv h final m) ! a) ''role'' = dict_item (h ! a) ''role''"
proof -
  let ?h1 = "h[m := dict_setitem (h ! m) ''role'' (convert_role conv (dict_item (h ! m) ''role''))]"
  have r1: "dict_item (?h1 ! a) ''role'' = dict_item (h ! a) ''role''" using assms by simp
  have "dict_item (?h1[l := dict_setitem (?h1 ! l) ''content'' v] ! a) ''role'' = dict_item (h ! a) ''role''"
    for l v
  proof (cases "a = l \<and> l < length h")
    case True
    then show ?thesis using r1 by (simp add: item_setitem del: nth_list_update)
  next
    case False
    then have "?h1[l := dict_setitem (?h1 ! l) ''content'' v] ! a = ?h1 ! a"
      by (cases "a = l") (simp_all add: list_update_beyond)
    then show ?thesis using r1 by (simp only:)
  qed
  then show ?thesis using r1 by (simp add: step_state_def Let_def del: nth_list_update)
qed

lemma step_state_role_self:
  assumes "m < length h"
  shows "dict_item (fst (step_state conv h final m) ! m) ''role''
           = convert_role conv (dict_item (h ! m) ''role'')"
proof -
  let ?h1 = "h[m := dict_setitem (h ! m) ''role'' (convert_role conv (dict_item (h ! m) ''role''))]"
  have r1: "dict_item (?h1 ! m) ''role'' = convert_role conv (dict_item (h ! m) ''role'')"
    using assms by (simp add: item_setitem)
  have "dict_item (?h1[l := dict_setitem (?h1 ! l) ''content'' v] ! m) ''role''
          = convert_role conv (dict_item (h ! m) ''role'')" for l v
  proof (cases "m = l")
    case True
    then show ?thesis using r1 assms by (simp add: item_setitem del: nth_list_update)
  next
    case False
    then show ?thesis using r1 by simp
  qed
  then show ?thesis using r1 by (simp add: step_state_def Let_def del: nth_list_update)
qed

lemma step_state_supported:
  assumes a: "a < length h" and sup: "supported_message (h ! a)"
    and m: "m < length h" and supm: "supported_message (h ! m)"
    and other: "a \<noteq> m \<or> conversions_supported conv"
  shows "supported_message (fst (step_state conv h final m) ! a)"
proof -
  from sup have k: "dict_keys (h ! a) = {''role'', ''content''}"
    and r: "dict_item (h ! a) ''role'' \<in> set MessageRole_roles"
    by (simp_all add: supported_message_iff)
  have k': "dict_keys (fst (step_state conv h final m) ! a) = {''role'', ''content''}"
    using a k by (rule step_state_keys)
  have "dict_item (fst (step_state conv h final m) ! a) ''role'' \<in> set MessageRole_roles"
  proof (cases "a = m")
    case False
    then show ?thesis using r by (simp add: step_state_role_other)
  next
    case True
    with other have "conversions_supported conv" by simp
    then show ?thesis using True r m
      by (simp add: step_state_role_self conversions_supportedD)
  qed
  with k' show ?thesis by (simp add: supported_message_iff)
qed

lemma step_state_final_valid:
  assumes m: "m < length h" and supm: "supported_message (h ! m)"
    and fin: "\<forall>a \<in> set final. a < length h \<and> dict_keys (h ! a) = {''role'', ''content''}"
  shows "\<forall>a \<in> set (snd (step_state conv h final m)).
           a < length (fst (step_state conv h final m))
           \<and> dict_keys (fst (step_state conv h final m) ! a) = {''role'', ''content''}"
proof
  fix a assume "a \<in> set (snd (step_state conv h final m))"
  then have "a \<in> set final \<or> a = m"
    using step_state_final [of conv h final m] by auto
  then have "a < length h \<and> dict_keys (h ! a) = {''role'', ''content''}"
    using fin m supm by (auto simp: supported_message_iff)
  then show "a < length (fst (step_state conv h final m))
           \<and> dict_keys (fst (step_state conv h final m) ! a) = {''role'', ''content''}"
    by (simp add: step_state_length step_state_keys)
qed

subsection \<open>The loop on the store\<close>

lemma clean_loop_Cons_supported:
  assumes "supported_message (h ! m)" and "m < length h"
    and "\<forall>a \<in> set final. a < length h \<and> dict_keys (h ! a) = {''role'', ''content''}"
  shows "clean_loop conv (h, final) (m # ms)
           = clean_loop conv (fst (step_state conv h final m), snd (step_state conv h final m)) ms"
  using clean_step_supported [OF assms] by (simp add: on_value_def)

lemma clean_loop_succeeds:
  assumes "distinct ms \<or> conversions_supported conv"
    and "\<forall>a \<in> set ms. a < length h \<and> supported_message (h ! a)"
    and "\<forall>a \<in> set final. a < length h \<and> dict_keys (h ! a) = {''role'', ''content''}"
  shows "\<exists>s. clean_loop conv (h, final) ms = Inr s"
  using assms
proof (induction ms arbitrary: h final)
  case Nil
  show ?case by simp
next
  case (Cons m ms)
  let ?h = "fst (step_state conv h final m)" and ?f = "snd (step_state conv h final m)"
  from Cons.prems(2) have m: "m < length h" and supm: "supported_message (h ! m)" by simp_all
  have eq: "clean_loop conv (h, final) (m # ms) = clean_loop conv (?h, ?f) ms"
    using supm m Cons.prems(3) by (rule clean_loop_Cons_supported)
  have d: "distinct ms \<or> conversions_supported conv" using Cons.prems(1) by auto
  have A: "\<forall>a \<in> set ms. a < length ?h \<and> supported_message (?h ! a)"
  proof
    fix a assume a: "a \<in> set ms"
    then have al: "a < length h" and sa: "supported_message (h ! a)"
      using Cons.prems(2) by simp_all
    have "a \<noteq> m \<or> conversions_supported conv" using Cons.prems(1) a by auto
    then show "a < length ?h \<and> supported_message (?h ! a)"
      using al sa m supm by (simp add: step_state_length step_state_supported)
  qed
  have B: "\<forall>a \<in> set ?f. a < length ?h \<and> dict_keys (?h ! a) = {''role'', ''content''}"
    using m supm Cons.prems(3) by (rule step_state_final_valid)
  show ?case using Cons.IH [OF d A B] by (simp only: eq)
qed

lemma clean_loop_frame:
  assumes "clean_loop conv (h, final) ms = Inr (h', final')"
    and "\<forall>a \<in> set ms. a < length h"
    and "\<forall>a \<in> set final. a < length h \<and> dict_keys (h ! a) = {''role'', ''content''}"
  shows "length h' = length h \<and> (\<forall>a. a \<notin> set ms \<and> a \<notin> set final \<longrightarrow> h' ! a = h ! a)"
  using assms
proof (induction ms arbitrary: h final)
  case Nil
  then show ?case by simp
next
  case (Cons m ms)
  let ?h = "fst (step_state conv h final m)" and ?f = "snd (step_state conv h final m)"
  from Cons.prems(2) have m: "m < length h" by simp
  have supm: "supported_message (h ! m)"
  proof (rule ccontr)
    assume "\<not> supported_message (h ! m)"
    from clean_step_unsupported [OF this] Cons.prems(1) show False
      by (simp add: on_value_def)
  qed
  have eq: "clean_loop conv (h, final) (m # ms) = clean_loop conv (?h, ?f) ms"
    using supm m Cons.prems(3) by (rule clean_loop_Cons_supported)
  have 1: "clean_loop conv (?h, ?f) ms = Inr (h', final')" using eq Cons.prems(1) by simp
  have 2: "\<forall>a \<in> set ms. a < length ?h" using Cons.prems(2) by (simp add: step_state_length)
  have 3: "\<forall>a \<in> set ?f. a < length ?h \<and> dict_keys (?h ! a) = {''role'', ''content''}"
    using m supm Cons.prems(3) by (rule step_state_final_valid)
  from Cons.IH [OF 1 2 3]
  have len: "length h' = length ?h"
    and fr: "\<forall>a. a \<notin> set ms \<and> a \<notin> set ?f \<longrightarrow> h' ! a = ?h ! a" by simp_all
  have "h' ! a = h ! a" if "a \<notin> set (m # ms)" "a \<notin> set final" for a
  proof -
    have "a \<notin> set ?f" using that step_state_final [of conv h final m] by auto
    then have "h' ! a = ?h ! a" using fr that by simp
    also have "\<dots> = h ! a" using that by (simp add: step_state_frame)
    finally show ?thesis .
  qed
  then show ?case using len by (simp add: step_state_length)
qed

lemma clean_loop_first_unsupported:
  assumes "distinct pre \<or> conversions_supported conv"
    and "\<forall>a \<in> set pre. a < length h \<and> supported_message (h ! a)"
    and "\<forall>a \<in> set final. a < length h \<and> dict_keys (h ! a) = {''role'', ''content''}"
    and "\<not> supported_message (h ! m)" and "m \<notin> set final"
  shows "clean_loop conv (h, final) (pre @ m # post) =
           Inl (if dict_keys (h ! m) \<noteq> {''role'', ''content''} then KeysValueError
                else RoleValueError (dict_item (h ! m) ''role''))"
  using assms
proof (induction pre arbitrary: h final)
  case Nil
  then show ?case by (simp add: clean_step_unsupported on_value_def)
next
  case (Cons x pre)
  let ?h = "fst (step_state conv h final x)" and ?f = "snd (step_state conv h final x)"
  from Cons.prems(2) have x: "x < length h" and supx: "supported_message (h ! x)" by simp_all
  have eq: "clean_loop conv (h, final) ((x # pre) @ m # post)
              = clean_loop conv (?h, ?f) (pre @ m # post)"
    using clean_loop_Cons_supported [OF supx x Cons.prems(3)] by simp
  have xm: "m \<noteq> x" using supx Cons.prems(4) by auto
  have same: "?h ! m = h ! m" using xm Cons.prems(5) by (simp add: step_state_frame)
  have 1: "distinct pre \<or> conversions_supported conv" using Cons.prems(1) by auto
  have 2: "\<forall>a \<in> set pre. a < length ?h \<and> supported_message (?h ! a)"
  proof
    fix a assume a: "a \<in> set pre"
    then have al: "a < length h" and sa: "supported_message (h ! a)"
      using Cons.prems(2) by simp_all
    have "a \<noteq> x \<or> conversions_supported conv" using Cons.prems(1) a by auto
    then show "a < length ?h \<and> supported_message (?h ! a)"
      using al sa x supx by (simp add: step_state_length step_state_supported)
  qed
  have 3: "\<forall>a \<in> set ?f. a < length ?h \<and> dict_keys (?h ! a) = {''role'', ''content''}"
    using x supx Cons.prems(3) by (rule step_state_final_valid)
  have 4: "\<not> supported_message (?h ! m)" using same Cons.prems(4) by simp
  have 5: "m \<notin> set ?f" using xm Cons.prems(5) step_state_final [of conv h final x] by auto
  show ?case using Cons.IH [OF 1 2 3 4 5] eq same by simp
qed

lemma clean_loop_raises:
  assumes "m \<in> set ms" and "\<not> supported_message (h ! m)" and "m \<notin> set final"
    and "\<forall>a \<in> set ms. a < length h"
    and "\<forall>a \<in> set final. a < length h \<and> dict_keys (h ! a) = {''role'', ''content''}"
  shows "\<exists>e. clean_loop conv (h, final) ms = Inl e"
  using assms
proof (induction ms arbitrary: h final)
  case Nil
  then show ?case by simp
next
  case (Cons x ms)
  let ?h = "fst (step_state conv h final x)" and ?f = "snd (step_state conv h final x)"
  show ?case
  proof (cases "supported_message (h ! x)")
    case False
    then show ?thesis by (simp add: clean_step_unsupported on_value_def)
  next
    case True
    from Cons.prems(4) have x: "x < length h" by simp
    have eq: "clean_loop conv (h, final) (x # ms) = clean_loop conv (?h, ?f) ms"
      using True x Cons.prems(5) by (rule clean_loop_Cons_supported)
    have xm: "m \<noteq> x" using True Cons.prems(2) by auto
    then have 1: "m \<in> set ms" using Cons.prems(1) by simp
    have 2: "\<not> supported_message (?h ! m)"
      using xm Cons.prems(2,3) by (simp add: step_state_frame)
    have 3: "m \<notin> set ?f" using xm Cons.prems(3) step_state_final [of conv h final x] by auto
    have 4: "\<forall>a \<in> set ms. a < length ?h" using Cons.prems(4) by (simp add: step_state_length)
    have 5: "\<forall>a \<in> set ?f. a < length ?h \<and> dict_keys (?h ! a) = {''role'', ''content''}"
      using x True Cons.prems(5) by (rule step_state_final_valid)
    show ?thesis using Cons.IH [OF 1 2 3 4 5] eq by simp
  qed
qed

subsection \<open>The loop merges the runs when no message is shared\<close>

lemma step_state_views:
  assumes m: "m < length h" and nin: "m \<notin> set final" and dis: "distinct final"
    and fin: "\<forall>a \<in> set final. a < length h"
  shows "map (\<lambda>a. message_view (fst (step_state conv h final m) ! a)) (snd (step_state conv h final m))
           = merge_loop (map (\<lambda>a. message_view (h ! a)) final) [converted_message_view conv (h ! m)]"
proof -
  let ?x = "converted_message_view conv (h ! m)"
  let ?h1 = "h[m := dict_setitem (h ! m) ''role'' (convert_role conv (dict_item (h ! m) ''role''))]"
  have vm: "message_view (?h1 ! m) = ?x"
    using m by (simp add: message_view_def converted_message_view_def item_setitem)
  have vf: "message_view (?h1 ! a) = message_view (h ! a)" if "a \<in> set final" for a
    using that nin by (cases "a = m") auto
  have mapf: "map (\<lambda>a. message_view (?h1 ! a)) final = map (\<lambda>a. message_view (h ! a)) final"
    using vf by simp
  show ?thesis
  proof (cases "final \<noteq> [] \<and> dict_item (?h1 ! m) ''role'' = dict_item (?h1 ! last final) ''role''")
    case False
    then have st: "step_state conv h final m = (?h1, final @ [m])"
      by (simp add: step_state_def Let_def del: nth_list_update)
    have nc: "\<not> (map (\<lambda>a. message_view (h ! a)) final \<noteq> [] \<and> fst ?x = fst (last (map (\<lambda>a. message_view (h ! a)) final)))"
    proof (cases "final = []")
      case True
      then show ?thesis by simp
    next
      case ne: False
      then have "last final \<in> set final" by simp
      then have "message_view (?h1 ! last final) = message_view (h ! last final)" by (rule vf)
      moreover have "dict_item (?h1 ! m) ''role'' \<noteq> dict_item (?h1 ! last final) ''role''"
        using False ne by simp
      ultimately show ?thesis using vm ne
        by (simp add: last_map message_view_def converted_message_view_def del: nth_list_update)
    qed
    have "merge_loop (map (\<lambda>a. message_view (h ! a)) final) [?x] = map (\<lambda>a. message_view (h ! a)) final @ [?x]"
      by (simp only: merge_loop.simps nc if_False)
    moreover have "map (\<lambda>a. message_view (?h1 ! a)) (final @ [m]) = map (\<lambda>a. message_view (h ! a)) final @ [?x]"
      using mapf vm by (simp del: nth_list_update)
    ultimately show ?thesis by (simp only: st fst_conv snd_conv)
  next
    case True
    let ?l = "last final"
    let ?c = "dict_item (?h1 ! ?l) ''content'' @ separator @ dict_item (?h1 ! m) ''content''"
    let ?h2 = "?h1[?l := dict_setitem (?h1 ! ?l) ''content'' ?c]"
    from True have ne: "final \<noteq> []" by simp
    then have lin: "?l \<in> set final" by simp
    then have ll: "?l < length h" and lm: "?l \<noteq> m" using fin nin by auto
    have st: "step_state conv h final m = (?h2, final)"
      using True by (simp add: step_state_def Let_def del: nth_list_update)
    have ab: "butlast final @ [?l] = final" using ne by simp
    have "distinct (butlast final @ [?l])" using dis by (simp only: ab)
    then have "?l \<notin> set (butlast final)" by simp
    then have vb: "message_view (?h2 ! a) = message_view (h ! a)" if "a \<in> set (butlast final)" for a
      using that vf [of a] in_set_butlastD [of a final] by (cases "a = ?l") auto
    have vl1: "message_view (?h1 ! ?l) = message_view (h ! ?l)" using lin by (rule vf)
    have "dict_item (?h2 ! ?l) ''role'' = dict_item (?h1 ! ?l) ''role''"
      and "dict_item (?h2 ! ?l) ''content'' = ?c"
      using ll by (simp_all add: item_setitem del: nth_list_update)
    then have "message_view (?h2 ! ?l) = (fst (message_view (?h1 ! ?l)), snd (message_view (?h1 ! ?l)) @ separator @ snd (message_view (?h1 ! m)))"
      by (simp only: message_view_def fst_conv snd_conv)
    then have vl: "message_view (?h2 ! ?l)
                = (fst (message_view (h ! ?l)), snd (message_view (h ! ?l)) @ separator @ snd ?x)"
      by (simp only: vl1 vm)
    have "map (\<lambda>a. message_view (?h2 ! a)) final = map (\<lambda>a. message_view (?h2 ! a)) (butlast final @ [?l])"
      by (simp only: ab)
    also have "\<dots> = map (\<lambda>a. message_view (?h2 ! a)) (butlast final) @ [message_view (?h2 ! ?l)]"
      by simp
    also have "map (\<lambda>a. message_view (?h2 ! a)) (butlast final) = map (\<lambda>a. message_view (h ! a)) (butlast final)"
      using vb by simp
    finally have lhs: "map (\<lambda>a. message_view (?h2 ! a)) final
        = butlast (map (\<lambda>a. message_view (h ! a)) final)
          @ [(fst (message_view (h ! ?l)), snd (message_view (h ! ?l)) @ separator @ snd ?x)]"
      by (simp only: vl map_butlast)
    have cond: "fst ?x = fst (last (map (\<lambda>a. message_view (h ! a)) final))"
      using True vm vl1 ne by (simp add: last_map message_view_def converted_message_view_def del: nth_list_update)
    show ?thesis using st lhs cond ne by (simp add: last_map del: nth_list_update)
  qed
qed

lemma merge_loop_append:
  "merge_loop acc (xs @ ys) = merge_loop (merge_loop acc xs) ys"
  by (induction xs arbitrary: acc) simp_all

lemma clean_loop_views:
  assumes "distinct (final @ ms)"
    and "\<forall>a \<in> set ms. a < length h \<and> supported_message (h ! a)"
    and "\<forall>a \<in> set final. a < length h \<and> dict_keys (h ! a) = {''role'', ''content''}"
  shows "\<exists>h' final'. clean_loop conv (h, final) ms = Inr (h', final')
           \<and> map (\<lambda>a. message_view (h' ! a)) final'
               = merge_loop (map (\<lambda>a. message_view (h ! a)) final) (map (\<lambda>a. converted_message_view conv (h ! a)) ms)
           \<and> (\<forall>a \<in> set final'. a < length h' \<and> dict_keys (h' ! a) = {''role'', ''content''})"
  using assms
proof (induction ms arbitrary: h final)
  case Nil
  then show ?case by simp
next
  case (Cons m ms)
  let ?h = "fst (step_state conv h final m)" and ?f = "snd (step_state conv h final m)"
  from Cons.prems(2) have m: "m < length h" and supm: "supported_message (h ! m)" by simp_all
  have eq: "clean_loop conv (h, final) (m # ms) = clean_loop conv (?h, ?f) ms"
    using supm m Cons.prems(3) by (rule clean_loop_Cons_supported)
  have nin: "m \<notin> set final" and dis: "distinct final" and mms: "m \<notin> set ms"
    using Cons.prems(1) by auto
  have fsub: "set ?f \<subseteq> insert m (set final)"
    using step_state_final [of conv h final m] by auto
  have 1: "distinct (?f @ ms)"
    using Cons.prems(1) step_state_final [of conv h final m] by auto
  have same: "?h ! a = h ! a" if "a \<in> set ms" for a
    using that Cons.prems(1) by (intro step_state_frame) auto
  have 2: "\<forall>a \<in> set ms. a < length ?h \<and> supported_message (?h ! a)"
    using Cons.prems(2) same by (simp add: step_state_length)
  have 3: "\<forall>a \<in> set ?f. a < length ?h \<and> dict_keys (?h ! a) = {''role'', ''content''}"
    using m supm Cons.prems(3) by (rule step_state_final_valid)
  have v: "map (\<lambda>a. message_view (?h ! a)) ?f
             = merge_loop (map (\<lambda>a. message_view (h ! a)) final) [converted_message_view conv (h ! m)]"
    using m nin dis Cons.prems(3) by (intro step_state_views) auto
  have cv: "map (\<lambda>a. converted_message_view conv (?h ! a)) ms = map (\<lambda>a. converted_message_view conv (h ! a)) ms"
    using same by simp
  from Cons.IH [OF 1 2 3] obtain h' final' where
    r: "clean_loop conv (?h, ?f) ms = Inr (h', final')"
    and w: "map (\<lambda>a. message_view (h' ! a)) final'
              = merge_loop (map (\<lambda>a. message_view (?h ! a)) ?f) (map (\<lambda>a. converted_message_view conv (?h ! a)) ms)"
    and k: "\<forall>a \<in> set final'. a < length h' \<and> dict_keys (h' ! a) = {''role'', ''content''}"
    by blast
  have "map (\<lambda>a. message_view (h' ! a)) final'
          = merge_loop (map (\<lambda>a. message_view (h ! a)) final)
              (map (\<lambda>a. converted_message_view conv (h ! a)) (m # ms))"
    using w merge_loop_append [of "map (\<lambda>a. message_view (h ! a)) final" "[converted_message_view conv (h ! m)]"
                                  "map (\<lambda>a. converted_message_view conv (h ! a)) ms"]
    by (simp only: v cv list.map append_Cons append_Nil)
  then show ?case using r k eq by simp
qed

subsection \<open>The copies\<close>

lemma prefix_nth: "prefix xs ys \<Longrightarrow> i < length xs \<Longrightarrow> ys ! i = xs ! i"
  by (auto simp: prefix_def nth_append)

lemma deepcopy_refs_copies:
  assumes "deepcopy_refs h memo rs = (h', cs)"
    and "prefix h0 h"
    and "\<forall>(r, c) \<in> set memo. length h0 \<le> c \<and> c < length h \<and> h ! c = h0 ! r"
    and "\<forall>r \<in> set rs. r < length h0"
  shows "prefix h h'
         \<and> list_all2 (\<lambda>r c. length h0 \<le> c \<and> c < length h' \<and> h' ! c = h0 ! r) rs cs"
  using assms
proof (induction rs arbitrary: h memo h' cs)
  case Nil
  then show ?case by simp
next
  case (Cons r rs)
  from Cons.prems(4) have r: "r < length h0" and rs: "\<forall>r \<in> set rs. r < length h0" by simp_all
  show ?case
  proof (cases "map_of memo r")
    case (Some c)
    obtain h1 cs1 where rec: "deepcopy_refs h memo rs = (h1, cs1)" by (cases "deepcopy_refs h memo rs")
    with Some Cons.prems(1) have res: "h' = h1" "cs = c # cs1" by simp_all
    from Some have "(r, c) \<in> set memo" by (rule map_of_SomeD)
    with Cons.prems(3) have c: "length h0 \<le> c" "c < length h" "h ! c = h0 ! r" by auto
    from Cons.IH [OF rec Cons.prems(2) Cons.prems(3) rs]
    have p: "prefix h h1"
      and l: "list_all2 (\<lambda>r c. length h0 \<le> c \<and> c < length h1 \<and> h1 ! c = h0 ! r) rs cs1"
      by simp_all
    have "c < length h1" using c(2) p by (meson prefix_length_le less_le_trans)
    moreover have "h1 ! c = h0 ! r" using prefix_nth [OF p c(2)] c(3) by simp
    ultimately show ?thesis using res p l c(1) by simp
  next
    case None
    let ?h = "h @ [h ! r]" and ?memo = "(r, length h) # memo"
    obtain h1 cs1 where rec: "deepcopy_refs ?h ?memo rs = (h1, cs1)"
      by (cases "deepcopy_refs ?h ?memo rs")
    with None Cons.prems(1) have res: "h' = h1" "cs = length h # cs1" by simp_all
    have hr: "h ! r = h0 ! r" using prefix_nth [OF Cons.prems(2) r] .
    have le: "length h0 \<le> length h" using Cons.prems(2) by (rule prefix_length_le)
    have 2: "prefix h0 ?h" using Cons.prems(2) by (simp add: prefix_def) auto
    have 3: "\<forall>(r, c) \<in> set ?memo. length h0 \<le> c \<and> c < length ?h \<and> ?h ! c = h0 ! r"
      using Cons.prems(3) le hr by (auto simp: nth_append)
    from Cons.IH [OF rec 2 3 rs]
    have p: "prefix ?h h1"
      and l: "list_all2 (\<lambda>r c. length h0 \<le> c \<and> c < length h1 \<and> h1 ! c = h0 ! r) rs cs1"
      by simp_all
    have ph: "prefix h h1" using p by (meson prefix_order.trans prefixI)
    have "length h < length ?h" by simp
    then have "length h < length h1" using p by (meson prefix_length_le less_le_trans)
    moreover have "h1 ! length h = h0 ! r"
      using prefix_nth [OF p, of "length h"] hr by simp
    ultimately show ?thesis using res ph l le by simp
  qed
qed

lemma deepcopy_refs_distinct:
  assumes "deepcopy_refs h memo rs = (h', cs)"
    and "distinct rs" and "set rs \<inter> fst ` set memo = {}"
  shows "distinct cs \<and> (\<forall>c \<in> set cs. length h \<le> c)"
  using assms
proof (induction rs arbitrary: h memo h' cs)
  case Nil
  then show ?case by simp
next
  case (Cons r rs)
  let ?h = "h @ [h ! r]" and ?memo = "(r, length h) # memo"
  from Cons.prems(3) have "r \<notin> fst ` set memo" by simp
  then have None: "map_of memo r = None" by (simp add: map_of_eq_None_iff)
  obtain h1 cs1 where rec: "deepcopy_refs ?h ?memo rs = (h1, cs1)"
    by (cases "deepcopy_refs ?h ?memo rs")
  with None Cons.prems(1) have res: "cs = length h # cs1" by simp
  have 2: "distinct rs" using Cons.prems(2) by simp
  have 3: "set rs \<inter> fst ` set ?memo = {}" using Cons.prems(2,3) by auto
  from Cons.IH [OF rec 2 3]
  have "distinct cs1" and "\<forall>c \<in> set cs1. length ?h \<le> c" by simp_all
  then show ?case using res by auto
qed

lemma deepcopy_facts:
  assumes "deepcopy h ml = (h', cs)" and "\<forall>r \<in> set ml. r < length h"
  shows "prefix h h'"
    and "list_all2 (\<lambda>r c. length h \<le> c \<and> c < length h' \<and> h' ! c = h ! r) ml cs"
    and "distinct ml \<Longrightarrow> distinct cs"
proof -
  from assms(1) have d: "deepcopy_refs h [] ml = (h', cs)" by (simp add: deepcopy_def)
  from deepcopy_refs_copies [OF d, of h] assms(2)
  show "prefix h h'"
    and "list_all2 (\<lambda>r c. length h \<le> c \<and> c < length h' \<and> h' ! c = h ! r) ml cs"
    by simp_all
  show "distinct cs" if "distinct ml"
    using deepcopy_refs_distinct [OF d that] by simp
qed

subsection \<open>The normalizer\<close>

lemma list_all2_transfer:
  assumes "list_all2 P xs ys" and "\<And>x y. P x y \<Longrightarrow> Q x \<Longrightarrow> R y" and "\<forall>x \<in> set xs. Q x"
  shows "\<forall>y \<in> set ys. R y"
  using assms by (induction rule: list_all2_induct) auto

lemma list_all2_transfer_ex:
  assumes "list_all2 P xs ys" and "\<And>x y. P x y \<Longrightarrow> Q x \<Longrightarrow> R y" and "\<exists>x \<in> set xs. Q x"
  shows "\<exists>y \<in> set ys. R y"
  using assms by (induction rule: list_all2_induct) auto

lemma get_clean_message_list_loop:
  "deepcopy h ml = (h', cs) \<Longrightarrow>
   get_clean_message_list h ml conv = clean_loop conv (h', []) cs"
  by (simp add: get_clean_message_list_def)

lemma get_clean_message_list_first_unsupported:
  assumes refs: "\<forall>r \<in> set (pre @ r # post). r < length h"
    and nosharing: "distinct (pre @ r # post) \<or> conversions_supported conv"
    and pre: "\<forall>p \<in> set pre. supported_message (h ! p)"
    and bad: "\<not> supported_message (h ! r)"
  shows "get_clean_message_list h (pre @ r # post) conv =
           Inl (if dict_keys (h ! r) \<noteq> {''role'', ''content''} then KeysValueError
                else RoleValueError (dict_item (h ! r) ''role''))"
proof -
  let ?P = "\<lambda>r c. length h \<le> c \<and> c < length h' \<and> h' ! c = h ! r"
  obtain h' cs where dc: "deepcopy h (pre @ r # post) = (h', cs)"
    by (cases "deepcopy h (pre @ r # post)")
  note f = deepcopy_facts [OF dc refs]
  from f(2) obtain cpre c cpost where cs: "cs = cpre @ c # cpost"
    and lpre: "list_all2 (\<lambda>r c. length h \<le> c \<and> c < length h' \<and> h' ! c = h ! r) pre cpre"
    and lc: "length h \<le> c \<and> c < length h' \<and> h' ! c = h ! r"
    by (auto simp: list_all2_append1 list_all2_Cons1)
  have 1: "distinct cpre \<or> conversions_supported conv"
    using nosharing f(3) cs by auto
  have 2: "\<forall>a \<in> set cpre. a < length h' \<and> supported_message (h' ! a)"
    using lpre _ pre by (rule list_all2_transfer) simp
  have 4: "\<not> supported_message (h' ! c)" using lc bad by simp
  have "clean_loop conv (h', []) (cpre @ c # cpost) =
           Inl (if dict_keys (h' ! c) \<noteq> {''role'', ''content''} then KeysValueError
                else RoleValueError (dict_item (h' ! c) ''role''))"
    using 1 2 _ 4 by (rule clean_loop_first_unsupported) simp_all
  then show ?thesis using lc by (simp add: get_clean_message_list_loop [OF dc] cs)
qed

lemma get_clean_message_list_succeeds:
  assumes refs: "\<forall>r \<in> set ml. r < length h"
    and nosharing: "distinct ml \<or> conversions_supported conv"
    and sup: "\<forall>r \<in> set ml. supported_message (h ! r)"
  shows "\<exists>s. get_clean_message_list h ml conv = Inr s"
proof -
  obtain h' cs where dc: "deepcopy h ml = (h', cs)" by (cases "deepcopy h ml")
  note f = deepcopy_facts [OF dc refs]
  have 1: "distinct cs \<or> conversions_supported conv" using nosharing f(3) by auto
  have 2: "\<forall>a \<in> set cs. a < length h' \<and> supported_message (h' ! a)"
    using f(2) _ sup by (rule list_all2_transfer) simp
  have "\<exists>s. clean_loop conv (h', []) cs = Inr s"
    using 1 2 by (rule clean_loop_succeeds) simp
  then show ?thesis by (simp add: get_clean_message_list_loop [OF dc])
qed

lemma get_clean_message_list_raises:
  assumes refs: "\<forall>r \<in> set ml. r < length h"
    and bad: "\<exists>r \<in> set ml. \<not> supported_message (h ! r)"
  shows "\<exists>e. get_clean_message_list h ml conv = Inl e"
proof -
  obtain h' cs where dc: "deepcopy h ml = (h', cs)" by (cases "deepcopy h ml")
  note f = deepcopy_facts [OF dc refs]
  have "\<exists>c \<in> set cs. \<not> supported_message (h' ! c)"
    using f(2) _ bad by (rule list_all2_transfer_ex) simp
  then obtain c where c: "c \<in> set cs" "\<not> supported_message (h' ! c)" by blast
  have r: "\<forall>a \<in> set cs. a < length h'"
    using f(2) by (rule list_all2_transfer [where Q = "\<lambda>_. True"]) simp_all
  have "\<exists>e. clean_loop conv (h', []) cs = Inl e"
    using c _ r by (rule clean_loop_raises) simp_all
  then show ?thesis by (simp add: get_clean_message_list_loop [OF dc])
qed

lemma get_clean_message_list_frame:
  assumes refs: "\<forall>r \<in> set ml. r < length h"
    and res: "get_clean_message_list h ml conv = Inr (h'', final)"
  shows "take (length h) h'' = h"
proof -
  obtain h' cs where dc: "deepcopy h ml = (h', cs)" by (cases "deepcopy h ml")
  note f = deepcopy_facts [OF dc refs]
  have r: "\<forall>a \<in> set cs. length h \<le> a \<and> a < length h'"
    using f(2) by (rule list_all2_transfer [where Q = "\<lambda>_. True"]) simp_all
  from res have "clean_loop conv (h', []) cs = Inr (h'', final)"
    by (simp add: get_clean_message_list_loop [OF dc])
  from clean_loop_frame [OF this] r
  have len: "length h'' = length h'" and fr: "\<forall>a. a \<notin> set cs \<longrightarrow> h'' ! a = h' ! a"
    by simp_all
  have le: "length h \<le> length h'" using f(1) by (rule prefix_length_le)
  show ?thesis
  proof (rule nth_equalityI)
    show "length (take (length h) h'') = length h" using len le by simp
  next
    fix i assume "i < length (take (length h) h'')"
    then have i: "i < length h" by simp
    then have "i \<notin> set cs" using r by auto
    then have "h'' ! i = h' ! i" using fr by simp
    also have "\<dots> = h ! i" using f(1) i by (rule prefix_nth)
    finally show "take (length h) h'' ! i = h ! i" using i by simp
  qed
qed

text \<open>
  C2, as the code has it. Provided that no message object occurs twice in the list, or
  that the role conversions map every supported role to a supported role:
  \<open>get_clean_message_list\<close> raises if and only if some message of the list has a key set
  other than role and content or a role, before conversion, that is not supported; the
  messages are validated in input order, the keys before the role, so the error is that of
  the first such message; and on success the messages of the input are as they were.
\<close>

theorem get_clean_message_list_raises_iff:
  assumes refs: "\<forall>r \<in> set message_list. r < length h"
    and nosharing: "distinct message_list \<or> conversions_supported role_conversions"
  shows "((\<exists>e. get_clean_message_list h message_list role_conversions = Inl e)
           \<longleftrightarrow> (\<exists>r \<in> set message_list. \<not> supported_message (h ! r)))
     \<and> (\<forall>pre r post. message_list = pre @ r # post
           \<and> (\<forall>p \<in> set pre. supported_message (h ! p))
           \<and> dict_keys (h ! r) \<noteq> {''role'', ''content''}
         \<longrightarrow> get_clean_message_list h message_list role_conversions = Inl KeysValueError)
     \<and> (\<forall>pre r post role. message_list = pre @ r # post
           \<and> (\<forall>p \<in> set pre. supported_message (h ! p))
           \<and> dict_keys (h ! r) = {''role'', ''content''}
           \<and> map_of (h ! r) ''role'' = Some role \<and> role \<notin> set MessageRole_roles
         \<longrightarrow> get_clean_message_list h message_list role_conversions = Inl (RoleValueError role))
     \<and> (\<forall>h' final. get_clean_message_list h message_list role_conversions = Inr (h', final)
         \<longrightarrow> take (length h) h' = h)"
proof (intro conjI allI impI)
  show "(\<exists>e. get_clean_message_list h message_list role_conversions = Inl e)
           \<longleftrightarrow> (\<exists>r \<in> set message_list. \<not> supported_message (h ! r))"
  proof
    assume "\<exists>e. get_clean_message_list h message_list role_conversions = Inl e"
    then show "\<exists>r \<in> set message_list. \<not> supported_message (h ! r)"
      using get_clean_message_list_succeeds [OF refs nosharing] by fastforce
  next
    assume "\<exists>r \<in> set message_list. \<not> supported_message (h ! r)"
    with refs show "\<exists>e. get_clean_message_list h message_list role_conversions = Inl e"
      by (rule get_clean_message_list_raises)
  qed
next
  fix pre r post
  assume a: "message_list = pre @ r # post
           \<and> (\<forall>p \<in> set pre. supported_message (h ! p))
           \<and> dict_keys (h ! r) \<noteq> {''role'', ''content''}"
  then have bad: "\<not> supported_message (h ! r)" by (simp add: supported_message_def)
  from a refs nosharing have "\<forall>r \<in> set (pre @ r # post). r < length h"
    and "distinct (pre @ r # post) \<or> conversions_supported role_conversions" by simp_all
  from get_clean_message_list_first_unsupported [OF this _ bad] a
  show "get_clean_message_list h message_list role_conversions = Inl KeysValueError" by simp
next
  fix pre r post role
  assume a: "message_list = pre @ r # post
           \<and> (\<forall>p \<in> set pre. supported_message (h ! p))
           \<and> dict_keys (h ! r) = {''role'', ''content''}
           \<and> map_of (h ! r) ''role'' = Some role \<and> role \<notin> set MessageRole_roles"
  then have bad: "\<not> supported_message (h ! r)" by (simp add: supported_message_def)
  from a have it: "dict_item (h ! r) ''role'' = role" by (simp add: dict_item_def)
  from a refs nosharing have "\<forall>r \<in> set (pre @ r # post). r < length h"
    and "distinct (pre @ r # post) \<or> conversions_supported role_conversions" by simp_all
  from get_clean_message_list_first_unsupported [OF this _ bad] a it
  show "get_clean_message_list h message_list role_conversions = Inl (RoleValueError role)"
    by simp
next
  fix h' final
  assume "get_clean_message_list h message_list role_conversions = Inr (h', final)"
  with refs show "take (length h) h' = h" by (rule get_clean_message_list_frame)
qed

text \<open>
  C1, as the code has it. For a list of pairwise distinct message objects, each with exactly
  the keys role and content and a supported role, \<open>get_clean_message_list\<close> returns a list
  in which no two adjacent messages have the same role: the returned messages are, in
  order, the maximal runs of consecutive input messages with the same converted role, each
  merged into one message with that role and the contents of the run joined in input order
  by the separator. (The runs are a partition of the input: concatenated they give it back,
  and adjacent runs have different roles.)
\<close>

theorem get_clean_message_list_merges_runs:
  assumes refs: "\<forall>r \<in> set message_list. r < length h \<and> supported_message (h ! r)"
    and dis: "distinct message_list"
  shows "(\<exists>h' final. get_clean_message_list h message_list role_conversions = Inr (h', final)
     \<and> map (\<lambda>a. message_view (h' ! a)) final
         = merged_runs (map (\<lambda>r. converted_message_view role_conversions (h ! r)) message_list)
     \<and> (\<forall>a \<in> set final. a < length h' \<and> dict_keys (h' ! a) = {''role'', ''content''})
     \<and> distinct_adj (map (\<lambda>a. fst (message_view (h' ! a))) final))
   \<and> concat (map (\<lambda>run. map (Pair (fst run)) (snd run))
        (role_runs (map (\<lambda>r. converted_message_view role_conversions (h ! r)) message_list)))
       = map (\<lambda>r. converted_message_view role_conversions (h ! r)) message_list
   \<and> distinct_adj (map fst
        (role_runs (map (\<lambda>r. converted_message_view role_conversions (h ! r)) message_list)))"
proof -
  obtain h1 cs where dc: "deepcopy h message_list = (h1, cs)"
    by (cases "deepcopy h message_list")
  from refs have r: "\<forall>r \<in> set message_list. r < length h"
    and sup: "\<forall>r \<in> set message_list. supported_message (h ! r)" by simp_all
  note f = deepcopy_facts [OF dc r]
  have 1: "distinct ([] @ cs)" using f(3) dis by simp
  have 2: "\<forall>a \<in> set cs. a < length h1 \<and> supported_message (h1 ! a)"
    using f(2) _ sup by (rule list_all2_transfer) simp
  have cv: "map (\<lambda>a. converted_message_view role_conversions (h1 ! a)) cs
              = map (\<lambda>r. converted_message_view role_conversions (h ! r)) message_list"
    using f(2) by (induction rule: list_all2_induct) simp_all
  from clean_loop_views [OF 1 2, of role_conversions]
  obtain h' final where res: "clean_loop role_conversions (h1, []) cs = Inr (h', final)"
    and v: "map (\<lambda>a. message_view (h' ! a)) final
              = merge_loop [] (map (\<lambda>a. converted_message_view role_conversions (h1 ! a)) cs)"
    and k: "\<forall>a \<in> set final. a < length h' \<and> dict_keys (h' ! a) = {''role'', ''content''}"
    by auto
  have v': "map (\<lambda>a. message_view (h' ! a)) final
              = merged_runs (map (\<lambda>r. converted_message_view role_conversions (h ! r)) message_list)"
    using v by (simp only: cv merge_loop_runs)
  have "map (\<lambda>a. fst (message_view (h' ! a))) final = map fst (map (\<lambda>a. message_view (h' ! a)) final)"
    by simp
  also have "\<dots> = map fst (role_runs (map (\<lambda>r. converted_message_view role_conversions (h ! r)) message_list))"
    by (simp only: v' merged_runs_def) simp
  finally have "distinct_adj (map (\<lambda>a. fst (message_view (h' ! a))) final)"
    by (simp only: runs_distinct_adj)
  then have "\<exists>h' final. get_clean_message_list h message_list role_conversions = Inr (h', final)
     \<and> map (\<lambda>a. message_view (h' ! a)) final
         = merged_runs (map (\<lambda>r. converted_message_view role_conversions (h ! r)) message_list)
     \<and> (\<forall>a \<in> set final. a < length h' \<and> dict_keys (h' ! a) = {''role'', ''content''})
     \<and> distinct_adj (map (\<lambda>a. fst (message_view (h' ! a))) final)"
    using res v' k by (simp add: get_clean_message_list_loop [OF dc])
  then show ?thesis
    using runs_concat runs_distinct_adj by (intro conjI)
qed

theorem get_clean_message_list_merges_runs_witness:
  "\<exists>h' final.
     get_clean_message_list
       [[(''role'', ''user''), (''content'', ''a'')],
        [(''role'', ''tool-response''), (''content'', ''b'')],
        [(''content'', ''c''), (''role'', ''system'')]]
       [0, 1, 2] llama_role_conversions = Inr (h', final)
     \<and> map (\<lambda>a. message_view (h' ! a)) final
         = [(''user'', ''a'' @ separator @ ''b''), (''system'', ''c'')]"
proof -
  let ?h = "[[(''role'', ''user''), (''content'', ''a'')],
             [(''role'', ''tool-response''), (''content'', ''b'')],
             [(''content'', ''c''), (''role'', ''system'')]]"
  have s: "supported_message [(''role'', ''user''), (''content'', ''a'')]"
    "supported_message [(''role'', ''tool-response''), (''content'', ''b'')]"
    "supported_message [(''content'', ''c''), (''role'', ''system'')]"
    by code_simp+
  have refs: "\<forall>r \<in> set [0, 1, 2]. r < length ?h \<and> supported_message (?h ! r)"
    using s by simp
  have dis: "distinct [0::nat, 1, 2]" by simp
  have m: "merged_runs (map (\<lambda>r. converted_message_view llama_role_conversions (?h ! r)) [0, 1, 2])
             = [(''user'', ''a'' @ separator @ ''b''), (''system'', ''c'')]"
    by code_simp
  from get_clean_message_list_merges_runs [OF refs dis, of llama_role_conversions, THEN conjunct1]
  obtain h' final where
    a: "get_clean_message_list ?h [0, 1, 2] llama_role_conversions = Inr (h', final)"
    and b: "map (\<lambda>a. message_view (h' ! a)) final
              = merged_runs (map (\<lambda>r. converted_message_view llama_role_conversions (?h ! r)) [0, 1, 2])"
    by (elim exE conjE)
  show ?thesis
    by (rule exI [of _ h'], rule exI [of _ final]) (simp only: a b m simp_thms)
qed

theorem get_clean_message_list_raises_iff_witness:
  "get_clean_message_list
     [[(''role'', ''user''), (''content'', ''a'')], [(''role'', ''bot''), (''content'', ''b'')]]
     [0, 1] [] = Inl (RoleValueError ''bot'')"
proof -
  let ?h = "[[(''role'', ''user''), (''content'', ''a'')], [(''role'', ''bot''), (''content'', ''b'')]]"
  have refs: "\<forall>r \<in> set [0, 1]. r < length ?h" by simp
  have nosharing: "distinct [0::nat, 1] \<or> conversions_supported []" by simp
  have s: "supported_message [(''role'', ''user''), (''content'', ''a'')]" by code_simp
  have p: "[0, 1] = [0] @ 1 # ([]::nat list)" by simp
  have q: "\<forall>p \<in> set [0]. supported_message (?h ! p)" using s by simp
  have k: "dict_keys (?h ! 1) = {''role'', ''content''}" by (simp add: dict_keys_def)
  have mo: "map_of (?h ! 1) ''role'' = Some ''bot''" by simp
  have r: "''bot'' \<notin> set MessageRole_roles" by (simp add: MessageRole_roles_def)
  note t = get_clean_message_list_raises_iff [OF refs nosharing, THEN conjunct2, THEN conjunct2,
      THEN conjunct1, rule_format, of "[0]" 1 "[]" "''bot''"]
  show ?thesis by (rule t) (intro conjI p q k mo r)
qed

text \<open>
  The claim C1 without the proviso fails when one dictionary occurs in the list more than
  once: \<^verbatim>\<open>deepcopy\<close> keeps the sharing, so merging into the last message of the result
  also changes its earlier occurrence. For \<^verbatim>\<open>[m, n, m, m]\<close> with \<open>m\<close> from the user and
  \<open>n\<close> from the assistant, the first returned message has the merged content.
\<close>

theorem get_clean_message_list_shared_counterexample:
  "supported_message [(''role'', ''user''), (''content'', ''a'')]
   \<and> supported_message [(''role'', ''assistant''), (''content'', ''b'')]
   \<and> get_clean_message_list
       [[(''role'', ''user''), (''content'', ''a'')], [(''role'', ''assistant''), (''content'', ''b'')]]
       [0, 1, 0, 0] []
     = Inr ([[(''role'', ''user''), (''content'', ''a'')],
             [(''role'', ''assistant''), (''content'', ''b'')],
             [(''role'', ''user''), (''content'', ''a'' @ separator @ ''a'')],
             [(''role'', ''assistant''), (''content'', ''b'')]], [2, 3, 2])
   \<and> merged_runs [(''user'', ''a''), (''assistant'', ''b''), (''user'', ''a''), (''user'', ''a'')]
     = [(''user'', ''a''), (''assistant'', ''b''), (''user'', ''a'' @ separator @ ''a'')]
   \<and> [message_view [(''role'', ''user''), (''content'', ''a'' @ separator @ ''a'')],
       message_view [(''role'', ''assistant''), (''content'', ''b'')],
       message_view [(''role'', ''user''), (''content'', ''a'' @ separator @ ''a'')]]
     \<noteq> merged_runs [(''user'', ''a''), (''assistant'', ''b''), (''user'', ''a''), (''user'', ''a'')]"
  by (intro conjI; code_simp)

text \<open>
  The claim C2 without the proviso fails when one dictionary occurs twice and its role is
  converted to an unsupported role: the second visit reads the converted role of the shared
  copy and raises, although every message of the input passes both checks.
\<close>

theorem get_clean_message_list_raises_counterexample:
  "supported_message [(''role'', ''user''), (''content'', ''a'')]
   \<and> get_clean_message_list [[(''role'', ''user''), (''content'', ''a'')]] [0, 0]
       [(''user'', ''bot'')] = Inl (RoleValueError ''bot'')"
  by (intro conjI; code_simp)

section \<open>Properties of the pipelines\<close>

lemma getitem0_Cons: "on_value (getitem0 (t # ts)) f = f t"
  by (simp add: getitem0_def on_value_def)

lemma postprocess_Cons:
  "postprocess framework tolist numpy numpy_tolist (t # ts) return_tensors =
     (if return_tensors then Inr (Tensor t)
      else if framework = ''pt'' then Inr (Nested (tolist t))
      else if framework = ''tf'' then Inr (Nested (numpy_tolist (numpy t)))
      else Inr PyNone)"
  by (simp add: postprocess_def getitem0_Cons)

lemma return_tensors_entry:
  "(case map_of (case rt of None \<Rightarrow> [] | Some r \<Rightarrow> [(''return_tensors'', r)]) ''return_tensors'' of
      None \<Rightarrow> False | Some r \<Rightarrow> r) = (rt = Some True)"
  by (cases rt) auto

lemma timeout_entry:
  "(case map_of (case tmo of None \<Rightarrow> d | Some t \<Rightarrow> AList.update ''timeout'' t d) ''timeout'' of
      None \<Rightarrow> None | Some t \<Rightarrow> t)
   = (case tmo of Some t \<Rightarrow> t
      | None \<Rightarrow> (case map_of d ''timeout'' of Some t \<Rightarrow> t | None \<Rightarrow> None))"
  by (cases tmo) (auto simp: update_conv' split: option.splits)

lemma other_entries:
  "AList.delete ''timeout'' (case tmo of None \<Rightarrow> d | Some t \<Rightarrow> AList.update ''timeout'' t d)
     = AList.delete ''timeout'' d"
  by (cases tmo) (simp_all add: delete_update_same)

lemma ImageFeatureExtractionPipeline_call_chain:
  "ImageFeatureExtractionPipeline_call load image_processor framework the_model tolist numpy
       numpy_tolist im rt ipk tmo
   = on_value (preprocess load image_processor framework im
                 (case tmo of Some t \<Rightarrow> t
                  | None \<Rightarrow> (case map_of (case ipk of None \<Rightarrow> [] | Some d \<Rightarrow> d) ''timeout'' of
                               Some t \<Rightarrow> t | None \<Rightarrow> None))
                 (AList.delete ''timeout'' (case ipk of None \<Rightarrow> [] | Some d \<Rightarrow> d)))
       (\<lambda>model_inputs. on_value (forward the_model model_inputs)
       (\<lambda>model_outputs. postprocess framework tolist numpy numpy_tolist model_outputs
                           (rt = Some True)))"
  by (simp only: ImageFeatureExtractionPipeline_call_def sanitize_parameters_def Let_def
      Pipeline_call_def prod.case return_tensors_entry timeout_entry other_entries)

text \<open>
  C4. \<^verbatim>\<open>ImageFeatureExtractionPipeline\<close> chains exactly three stages. \<^verbatim>\<open>preprocess\<close>
  loads the image and then applies the image processor; \<^verbatim>\<open>_forward\<close> applies the model to
  the processed inputs; \<^verbatim>\<open>postprocess\<close> returns the first output tensor unchanged when
  \<open>return_tensors\<close> is true, and otherwise its conversion to nested lists, \<^verbatim>\<open>tolist()\<close>
  for the framework \<^verbatim>\<open>"pt"\<close> and \<^verbatim>\<open>numpy().tolist()\<close> for \<^verbatim>\<open>"tf"\<close> (None for another
  framework). A call of the pipeline is the composition of the three in this order, with
  the timeout and the image processor arguments of the call in the first stage and
  \<open>return_tensors\<close> of the call in the last: where the image loads, the processor and the
  model return, the result of the call is the post-processed first output of the model of
  the processed loaded image, and an exception of a stage is the exception of the call.
\<close>

theorem ImageFeatureExtractionPipeline_stages:
  assumes d: "d = (case ipk of None \<Rightarrow> [] | Some given \<Rightarrow> given)"
    and tm: "tm = (case tmo of Some v \<Rightarrow> v
                   | None \<Rightarrow> (case map_of d ''timeout'' of Some v \<Rightarrow> v | None \<Rightarrow> None))"
    and kw: "kw = AList.delete ''timeout'' d"
  shows "preprocess load image_processor framework im tm kw
     = (case load im tm of
          Inl e \<Rightarrow> Inl e
        | Inr loaded \<Rightarrow> image_processor loaded framework kw)
   \<and> forward the_model model_inputs = the_model model_inputs
   \<and> postprocess framework tolist numpy numpy_tolist (t # ts) True = Inr (Tensor t)
   \<and> postprocess ''pt'' tolist numpy numpy_tolist (t # ts) False = Inr (Nested (tolist t))
   \<and> postprocess ''tf'' tolist numpy numpy_tolist (t # ts) False
       = Inr (Nested (numpy_tolist (numpy t)))
   \<and> (postprocess framework tolist numpy numpy_tolist (t # ts) return_tensors = Inr PyNone
        \<longleftrightarrow> \<not> return_tensors \<and> framework \<noteq> ''pt'' \<and> framework \<noteq> ''tf'')
   \<and> ImageFeatureExtractionPipeline_call load image_processor framework the_model tolist numpy
         numpy_tolist im rt ipk tmo
       = on_value (preprocess load image_processor framework im tm kw)
           (\<lambda>model_inputs. on_value (forward the_model model_inputs)
           (\<lambda>model_outputs. postprocess framework tolist numpy numpy_tolist model_outputs
                               (rt = Some True)))
   \<and> (load im tm = Inr loaded \<and> image_processor loaded framework kw = Inr model_inputs
        \<and> the_model model_inputs = Inr (t # ts) \<longrightarrow>
      ImageFeatureExtractionPipeline_call load image_processor framework the_model tolist numpy
         numpy_tolist im rt ipk tmo
       = (if rt = Some True then Inr (Tensor t)
          else if framework = ''pt'' then Inr (Nested (tolist t))
          else if framework = ''tf'' then Inr (Nested (numpy_tolist (numpy t)))
          else Inr PyNone))
   \<and> (load im tm = Inl e \<longrightarrow>
      ImageFeatureExtractionPipeline_call load image_processor framework the_model tolist numpy
         numpy_tolist im rt ipk tmo = Inl e)
   \<and> (load im tm = Inr loaded \<and> image_processor loaded framework kw = Inl e \<longrightarrow>
      ImageFeatureExtractionPipeline_call load image_processor framework the_model tolist numpy
         numpy_tolist im rt ipk tmo = Inl e)
   \<and> (load im tm = Inr loaded \<and> image_processor loaded framework kw = Inr model_inputs
        \<and> the_model model_inputs = Inl e \<longrightarrow>
      ImageFeatureExtractionPipeline_call load image_processor framework the_model tolist numpy
         numpy_tolist im rt ipk tmo = Inl e)
   \<and> (load im tm = Inr loaded \<and> image_processor loaded framework kw = Inr model_inputs
        \<and> the_model model_inputs = Inr [] \<and> (rt = Some True \<or> framework = ''pt'' \<or> framework = ''tf'')
        \<longrightarrow>
      ImageFeatureExtractionPipeline_call load image_processor framework the_model tolist numpy
         numpy_tolist im rt ipk tmo = Inl IndexError)"
proof -
  note chain = ImageFeatureExtractionPipeline_call_chain
      [of load image_processor framework the_model tolist numpy numpy_tolist im rt ipk tmo,
       folded d, folded tm kw]
  have pre: "preprocess load image_processor framework im tm kw
     = (case load im tm of
          Inl e \<Rightarrow> Inl e
        | Inr loaded \<Rightarrow> image_processor loaded framework kw)"
    by (simp add: preprocess_def on_value_def)
  have fwd: "forward the_model model_inputs = the_model model_inputs"
    by (simp add: forward_def)
  have p1: "postprocess framework tolist numpy numpy_tolist (t # ts) True = Inr (Tensor t)"
    by (simp add: postprocess_Cons)
  have p2: "postprocess ''pt'' tolist numpy numpy_tolist (t # ts) False = Inr (Nested (tolist t))"
    by (simp add: postprocess_Cons)
  have p3: "postprocess ''tf'' tolist numpy numpy_tolist (t # ts) False
       = Inr (Nested (numpy_tolist (numpy t)))"
    by (simp add: postprocess_Cons)
  have p4: "postprocess framework tolist numpy numpy_tolist (t # ts) return_tensors = Inr PyNone
        \<longleftrightarrow> \<not> return_tensors \<and> framework \<noteq> ''pt'' \<and> framework \<noteq> ''tf''"
    by (simp add: postprocess_Cons)
  have ok: "load im tm = Inr loaded \<and> image_processor loaded framework kw = Inr model_inputs
        \<and> the_model model_inputs = Inr (t # ts) \<longrightarrow>
      ImageFeatureExtractionPipeline_call load image_processor framework the_model tolist numpy
         numpy_tolist im rt ipk tmo
       = (if rt = Some True then Inr (Tensor t)
          else if framework = ''pt'' then Inr (Nested (tolist t))
          else if framework = ''tf'' then Inr (Nested (numpy_tolist (numpy t)))
          else Inr PyNone)"
    by (simp add: chain pre fwd on_value_def postprocess_Cons)
  have e1: "load im tm = Inl e \<longrightarrow>
      ImageFeatureExtractionPipeline_call load image_processor framework the_model tolist numpy
         numpy_tolist im rt ipk tmo = Inl e"
    by (simp add: chain pre on_value_def)
  have e2: "load im tm = Inr loaded \<and> image_processor loaded framework kw = Inl e \<longrightarrow>
      ImageFeatureExtractionPipeline_call load image_processor framework the_model tolist numpy
         numpy_tolist im rt ipk tmo = Inl e"
    by (simp add: chain pre on_value_def)
  have e3: "load im tm = Inr loaded \<and> image_processor loaded framework kw = Inr model_inputs
        \<and> the_model model_inputs = Inl e \<longrightarrow>
      ImageFeatureExtractionPipeline_call load image_processor framework the_model tolist numpy
         numpy_tolist im rt ipk tmo = Inl e"
    by (simp add: chain pre fwd on_value_def)
  have e4: "load im tm = Inr loaded \<and> image_processor loaded framework kw = Inr model_inputs
        \<and> the_model model_inputs = Inr [] \<and> (rt = Some True \<or> framework = ''pt'' \<or> framework = ''tf'')
        \<longrightarrow>
      ImageFeatureExtractionPipeline_call load image_processor framework the_model tolist numpy
         numpy_tolist im rt ipk tmo = Inl IndexError"
    by (auto simp: chain pre fwd on_value_def postprocess_def getitem0_def)
  from pre fwd p1 p2 p3 p4 chain ok e1 e2 e3 e4 show ?thesis by (intro conjI)
qed

theorem ImageFeatureExtractionPipeline_stages_witness:
  "ImageFeatureExtractionPipeline_call example_load_image example_image_processor ''pt''
       example_model (\<lambda>t. [t]) (\<lambda>t. t) (\<lambda>n. [n]) ''cat.png'' None
       (Some [(''do_resize'', None), (''timeout'', Some 5)]) None
     = Inr (Nested [8])
   \<and> ImageFeatureExtractionPipeline_call example_load_image example_image_processor ''pt''
       example_model (\<lambda>t. [t]) (\<lambda>t. t) (\<lambda>n. [n]) ''cat.png'' (Some True) None (Some None)
     = Inr (Tensor 6)
   \<and> ImageFeatureExtractionPipeline_call example_load_image example_image_processor ''pt''
       example_model (\<lambda>t. [t]) (\<lambda>t. t) (\<lambda>n. [n]) ''dog.png'' (Some True) None (Some None)
     = Inl ImageValueError"
proof -
  let ?d = "[(''do_resize'', None), (''timeout'', Some (5 :: nat))]"
  have d: "?d = (case Some ?d of None \<Rightarrow> [] | Some given \<Rightarrow> given)" by simp
  have tm: "Some 5 = (case None of Some v \<Rightarrow> v
                     | None \<Rightarrow> (case map_of ?d ''timeout'' of Some v \<Rightarrow> v | None \<Rightarrow> None))"
    by simp
  have kw: "[(''do_resize'', None)] = AList.delete ''timeout'' ?d" by simp
  note a = ImageFeatureExtractionPipeline_stages [OF d tm kw,
      of example_load_image example_image_processor "''pt''" "''cat.png''" example_model 4
         "\<lambda>t. [t]" "\<lambda>t. t" "\<lambda>n. [n]" 8 "[0]" False None 3 ImageValueError]
  have first: "ImageFeatureExtractionPipeline_call example_load_image example_image_processor ''pt''
       example_model (\<lambda>t. [t]) (\<lambda>t. t) (\<lambda>n. [n]) ''cat.png'' None (Some ?d) None
     = Inr (Nested [8])"
    using a [THEN conjunct2, THEN conjunct2, THEN conjunct2, THEN conjunct2, THEN conjunct2, THEN conjunct2, THEN conjunct2, THEN conjunct1]
    by (simp add: example_load_image_def example_image_processor_def example_model_def)
  have d': "([] :: (string \<times> nat option) list) = (case None of None \<Rightarrow> [] | Some given \<Rightarrow> given)"
    by simp
  have tm': "None = (case Some None of Some v \<Rightarrow> v
                     | None \<Rightarrow> (case map_of ([] :: (string \<times> nat option) list) ''timeout'' of
                                  Some v \<Rightarrow> v | None \<Rightarrow> None))"
    by simp
  have kw': "([] :: (string \<times> nat option) list) = AList.delete ''timeout'' []" by simp
  note b = ImageFeatureExtractionPipeline_stages [OF d' tm' kw',
      of example_load_image example_image_processor "''pt''" "''cat.png''" example_model 3
         "\<lambda>t. [t]" "\<lambda>t. t" "\<lambda>n. [n]" 6 "[0]" False "Some True" 3 ImageValueError]
  have second: "ImageFeatureExtractionPipeline_call example_load_image example_image_processor ''pt''
       example_model (\<lambda>t. [t]) (\<lambda>t. t) (\<lambda>n. [n]) ''cat.png'' (Some True) None (Some None)
     = Inr (Tensor 6)"
    using b [THEN conjunct2, THEN conjunct2, THEN conjunct2, THEN conjunct2, THEN conjunct2, THEN conjunct2, THEN conjunct2, THEN conjunct1]
    by (simp add: example_load_image_def example_image_processor_def example_model_def)
  note c = ImageFeatureExtractionPipeline_stages [OF d' tm' kw',
      of example_load_image example_image_processor "''pt''" "''dog.png''" example_model 3
         "\<lambda>t. [t]" "\<lambda>t. t" "\<lambda>n. [n]" 6 "[0]" False "Some True" 3 ImageValueError]
  have third: "ImageFeatureExtractionPipeline_call example_load_image example_image_processor ''pt''
       example_model (\<lambda>t. [t]) (\<lambda>t. t) (\<lambda>n. [n]) ''dog.png'' (Some True) None (Some None)
     = Inl ImageValueError"
    using c [THEN conjunct2, THEN conjunct2, THEN conjunct2, THEN conjunct2, THEN conjunct2, THEN conjunct2, THEN conjunct2, THEN conjunct2, THEN conjunct1] by (simp add: example_load_image_def)
  from first second third show ?thesis by (intro conjI)
qed

lemma on_value_Inr:
  "on_value r f = Inr y \<longleftrightarrow> (\<exists>v. r = Inr v \<and> f v = Inr y)"
  by (cases r) (simp_all add: on_value_def)

lemma map_raise_Inr:
  "map_raise f xs = Inr ys \<Longrightarrow> list_all2 (\<lambda>x y. f x = Inr y) xs ys"
proof (induction xs arbitrary: ys)
  case Nil
  then show ?case by simp
next
  case (Cons x xs)
  from Cons.prems obtain y ys' where "f x = Inr y" "map_raise f xs = Inr ys'" "ys = y # ys'"
    by (auto simp: on_value_Inr)
  then show ?case using Cons.IH by simp
qed

lemma mask_index_keep:
  "length xs = length ss \<Longrightarrow>
   mask_index xs (map P ss) = Inr (map snd (filter (\<lambda>(s, x). P s) (zip ss xs)))"
proof -
  assume len: "length xs = length ss"
  have "map snd (filter fst (zip (map P ss) xs)) = map snd (filter (\<lambda>(s, x). P s) (zip ss xs))"
    using len [symmetric] by (induction ss xs rule: list_induct2) simp_all
  then show ?thesis using len by (simp add: mask_index_def)
qed

lemma zip_masked:
  assumes "length ls = length ss" and "length bs = length ss"
  shows "zip (map snd (filter (\<lambda>(y, x). P y) (zip ss ss)))
             (zip (map snd (filter (\<lambda>(y, x). P y) (zip ss ls)))
                  (map snd (filter (\<lambda>(y, x). P y) (zip ss bs))))
         = filter (\<lambda>(s, l, b). P s) (zip ss (zip ls bs))"
proof -
  from assms have "length ss = length ls" and "length ls = length bs" by simp_all
  then show ?thesis by (induction ss ls bs rule: list_induct3) simp_all
qed

lemma map_raise_map:
  "(\<And>x. x \<in> set xs \<Longrightarrow> f x = Inr (g x)) \<Longrightarrow> map_raise f xs = Inr (map g xs)"
  by (induction xs) (simp_all add: on_value_def)

lemma masked_subset:
  "set (map snd (filter (\<lambda>(s, x). P s) (zip ss xs))) \<subseteq> set xs"
  by (auto dest: set_zip_rightD)

lemma get_clockwise_vertices_corners:
  "length b = 4 \<Longrightarrow> get_clockwise_vertices b = Inr (corners b)"
proof -
  assume "length b = 4"
  then obtain x0 y0 x1 y1 where "b = [x0, y0, x1, y1]"
    by (auto simp: length_Suc_conv numeral_eq_Suc)
  then show ?thesis
    by (simp add: get_clockwise_vertices_def corners_def corner_at_def Let_def)
qed

lemma corners_format_length: "corners_format b \<Longrightarrow> length b = 4"
  by (auto simp: corners_format_def split: list.splits)

lemma zip3_map:
  "map (\<lambda>(s, n, v). F s n v) (zip ss (zip (map g ls) (map h bs)))
     = map (\<lambda>(s, l, b). F s (g l) (h b)) (zip ss (zip ls bs))"
proof (induction ss arbitrary: ls bs)
  case Nil
  then show ?case by simp
next
  case (Cons s ss)
  then show ?case by (cases ls; cases bs) simp_all
qed

lemma keep_detections_eq:
  assumes "detections p a"
  shows "keep_detections p (Some t) a
           = Inr (map (prediction_of p) (detections_above (to_float32 p t) a))"
proof -
  let ?P = "\<lambda>s. to_float32 p t < s"
  let ?lookup = "\<lambda>label. case map_of (id2label p) label of
                            None \<Rightarrow> Inl KeyError | Some name \<Rightarrow> Inr name"
  let ?name = "\<lambda>l. case map_of (id2label p) l of Some name \<Rightarrow> name | None \<Rightarrow> []"
  let ?scores = "map snd (filter (\<lambda>(s, x). ?P s) (zip (scores a) (scores a)))"
  let ?labels = "map snd (filter (\<lambda>(s, x). ?P s) (zip (scores a) (labels a)))"
  let ?boxes = "map snd (filter (\<lambda>(s, x). ?P s) (zip (scores a) (boxes a)))"
  from assms have ll: "length (labels a) = length (scores a)"
    and lb: "length (boxes a) = length (scores a)"
    and named: "\<And>l. l \<in> set (labels a) \<Longrightarrow> map_of (id2label p) l \<noteq> None"
    and fmt: "\<And>b. b \<in> set (boxes a) \<Longrightarrow> corners_format b"
    by (simp_all add: detections_def list_all_iff)
  have ms: "mask_index (scores a) (map ?P (scores a)) = Inr ?scores"
    by (rule mask_index_keep) simp
  have ml: "mask_index (labels a) (map ?P (scores a)) = Inr ?labels"
    using ll by (rule mask_index_keep)
  have mb: "mask_index (boxes a) (map ?P (scores a)) = Inr ?boxes"
    using lb by (rule mask_index_keep)
  have mn: "map_raise ?lookup ?labels = Inr (map ?name ?labels)"
  proof (rule map_raise_map)
    fix l assume "l \<in> set ?labels"
    then have "l \<in> set (labels a)" using masked_subset [of ?P "scores a" "labels a"] by blast
    from named [OF this] show "?lookup l = Inr (?name l)" by (auto split: option.splits)
  qed
  have mv: "map_raise get_clockwise_vertices ?boxes = Inr (map corners ?boxes)"
  proof (rule map_raise_map)
    fix b assume "b \<in> set ?boxes"
    then have "b \<in> set (boxes a)" using masked_subset [of ?P "scores a" "boxes a"] by blast
    from fmt [OF this] show "get_clockwise_vertices b = Inr (corners b)"
      by (intro get_clockwise_vertices_corners corners_format_length)
  qed
  have "keep_detections p (Some t) a
          = Inr (map (\<lambda>(s, n, v). [(''score'', Score s), (''label'', Label n), (''box'', Box v)])
                   (zip ?scores (zip (map ?name ?labels) (map corners ?boxes))))"
    by (simp add: keep_detections_def Let_def ms ml mb mn mv on_value_def)
  also have "map (\<lambda>(s, n, v). [(''score'', Score s), (''label'', Label n), (''box'', Box v)])
                   (zip ?scores (zip (map ?name ?labels) (map corners ?boxes)))
             = map (\<lambda>(s, l, b). [(''score'', Score s), (''label'', Label (?name l)),
                                  (''box'', Box (corners b))])
                   (zip ?scores (zip ?labels ?boxes))"
    by (rule zip3_map)
  also have "zip ?scores (zip ?labels ?boxes) = detections_above (to_float32 p t) a"
    using zip_masked [OF ll lb, of ?P] by (simp add: detections_above_def)
  also have "(\<lambda>(s, l, b). [(''score'', Score s), (''label'', Label (?name l)),
                            (''box'', Box (corners b))]) = prediction_of p"
    by (auto simp: prediction_of_def fun_eq_iff)
  finally show ?thesis .
qed

lemma on_value_Inr_simp: "on_value (Inr v) f = f v"
  by (simp add: on_value_def)

lemma IntTensor_in_range:
  "(\<And>r. r \<in> set rows \<Longrightarrow> in_int32 (fst r) \<and> in_int32 (snd r)) \<Longrightarrow> IntTensor rows = Inr rows"
  by (auto simp: IntTensor_def list_all_iff)

lemma ObjectDetectionPipeline_call_eq:
  assumes loads: "map_raise (load_image p) (case images of Batch ims \<Rightarrow> ims | Single im \<Rightarrow> [im])
                    = Inr loaded"
    and sizes: "\<And>im. im \<in> set loaded \<Longrightarrow> in_int32 (height p im) \<and> in_int32 (width p im)"
    and anns: "annotations = post_process p (model p (feature_extractor p loaded))
                               (map (\<lambda>im. (height p im, width p im)) loaded)"
    and wf: "\<And>a. a \<in> set annotations \<Longrightarrow> detections p a"
    and thr: "(case threshold_arg of None \<Rightarrow> Some threshold_default | Some given \<Rightarrow> given) = Some t"
  shows "ObjectDetectionPipeline_call p images threshold_arg
     = (let lists = map (\<lambda>a. map (prediction_of p) (detections_above (to_float32 p t) a)) annotations
        in case images of
             Batch _ \<Rightarrow> Inr (PredictionLists lists)
           | Single _ \<Rightarrow> (case lists of [] \<Rightarrow> Inl IndexError | a # _ \<Rightarrow> Inr (Predictions a)))"
proof -
  let ?lists = "map (\<lambda>a. map (prediction_of p) (detections_above (to_float32 p t) a)) annotations"
  have it: "IntTensor (map (\<lambda>im. (height p im, width p im)) loaded)
              = Inr (map (\<lambda>im. (height p im, width p im)) loaded)"
    by (rule IntTensor_in_range) (use sizes in auto)
  have kd: "map_raise (keep_detections p (Some t)) annotations = Inr ?lists"
    by (rule map_raise_map) (rule keep_detections_eq, rule wf)
  have "ObjectDetectionPipeline_call p images threshold_arg
     = (if \<not> (case images of Batch _ \<Rightarrow> True | Single _ \<Rightarrow> False)
        then (case ?lists of [] \<Rightarrow> Inl IndexError | a # _ \<Rightarrow> Inr (Predictions a))
        else Inr (PredictionLists ?lists))"
    by (simp only: ObjectDetectionPipeline_call_def Let_def thr loads on_value_Inr_simp it
        anns [symmetric] kd)
  then show ?thesis by (cases images) (simp_all add: Let_def)
qed

lemma trunc_mono:
  fixes x y :: rat
  assumes "x \<le> y"
  shows "(if 0 \<le> x then \<lfloor>x\<rfloor> else \<lceil>x\<rceil>) \<le> (if 0 \<le> y then \<lfloor>y\<rfloor> else \<lceil>y\<rceil>)"
proof (cases "0 \<le> x")
  case True
  with assms have "0 \<le> y" by simp
  with True show ?thesis using assms by (simp add: floor_mono)
next
  case False
  show ?thesis
  proof (cases "0 \<le> y")
    case True
    from False have "\<lceil>x\<rceil> \<le> 0" by (simp add: ceiling_le_zero)
    moreover from True have "0 \<le> \<lfloor>y\<rfloor>" by simp
    ultimately have "\<lceil>x\<rceil> \<le> \<lfloor>y\<rfloor>" by (rule order_trans)
    then show ?thesis by (simp only: False True if_False if_True)
  next
    case y: False
    with False show ?thesis using assms by (simp add: ceiling_mono)
  qed
qed

lemma trunc_in_range:
  fixes x :: rat
  assumes "- 2147483648 \<le> x" and "x < 2147483648"
  shows "in_int32 (if 0 \<le> x then \<lfloor>x\<rfloor> else \<lceil>x\<rceil>)"
proof (cases "0 \<le> x")
  case True
  then have "0 \<le> \<lfloor>x\<rfloor>" by simp
  moreover from assms(2) have "\<lfloor>x\<rfloor> < 2147483648" by (simp add: floor_less_iff)
  ultimately show ?thesis using True by (simp add: in_int32_def)
next
  case False
  then have "\<lceil>x\<rceil> \<le> 0" by (simp add: ceiling_le_zero)
  moreover from assms(1) have "- 2147483648 \<le> \<lceil>x\<rceil>"
    by (metis ceiling_mono ceiling_of_int of_int_minus of_int_numeral)
  ultimately show ?thesis using False by (simp add: in_int32_def)
qed

lemma tensor_int_mono:
  assumes "x \<le> y" and "- 2147483648 \<le> x" and "y < 2147483648"
  shows "tensor_int x \<le> tensor_int y"
proof -
  from assms have "x < 2147483648" and "- 2147483648 \<le> y" by simp_all
  with assms have "in_int32 (if 0 \<le> x then \<lfloor>x\<rfloor> else \<lceil>x\<rceil>)"
    and "in_int32 (if 0 \<le> y then \<lfloor>y\<rfloor> else \<lceil>y\<rceil>)"
    by (simp_all only: trunc_in_range)
  then show ?thesis using trunc_mono [OF assms(1)] by (simp add: tensor_int_def Let_def)
qed

lemma corners_clockwise:
  assumes "corners_format b"
  shows "clockwise_from_top_left (corners b)"
proof -
  from assms obtain xmin ymin xmax ymax where b: "b = [xmin, ymin, xmax, ymax]"
    by (auto simp: corners_format_def split: list.splits)
  with assms have ord: "xmin \<le> xmax" "ymin \<le> ymax"
    and rng: "- 2147483648 \<le> xmin" "xmax < 2147483648" "- 2147483648 \<le> ymin" "ymax < 2147483648"
    by (simp_all add: corners_format_def)
  have "tensor_int xmin \<le> tensor_int xmax" using ord(1) rng(1,2) by (rule tensor_int_mono)
  moreover have "tensor_int ymin \<le> tensor_int ymax" using ord(2) rng(3,4) by (rule tensor_int_mono)
  ultimately show ?thesis
    by (simp add: b corners_def corner_at_def Let_def clockwise_from_top_left_def point_def)
qed

lemma above_float32:
  assumes "mono f" and "f s = s" and "f t < s"
  shows "t < (s :: rat)"
proof (rule ccontr)
  assume "\<not> t < s"
  then have "s \<le> t" by simp
  with assms(1) have "f s \<le> f t" by (rule monoD)
  with assms(2,3) show False by simp
qed

lemma prediction_of_props:
  assumes wf: "detections p a" and mono: "mono (to_float32 p)"
    and d: "d \<in> set (detections_above (to_float32 p t) a)"
  shows "map fst (prediction_of p d) = [''score'', ''label'', ''box'']
     \<and> (\<exists>s. map_of (prediction_of p d) ''score'' = Some (Score s) \<and> t < s)
     \<and> (\<exists>name. map_of (prediction_of p d) ''label'' = Some (Label name))
     \<and> (\<exists>vs. map_of (prediction_of p d) ''box'' = Some (Box vs) \<and> length vs = 4
             \<and> clockwise_from_top_left vs)"
proof -
  obtain s l b where dd: "d = (s, l, b)" by (cases d) auto
  from d dd have above: "to_float32 p t < s"
    and mem: "(s, l, b) \<in> set (zip (scores a) (zip (labels a) (boxes a)))"
    by (auto simp: detections_above_def)
  from mem have "s \<in> set (scores a)" by (rule set_zip_leftD)
  with wf have "to_float32 p s = s" by (simp add: detections_def list_all_iff)
  with mono have ts: "t < s" using above by (rule above_float32)
  from mem have "(l, b) \<in> set (zip (labels a) (boxes a))" by (rule set_zip_rightD)
  then have "b \<in> set (boxes a)" by (rule set_zip_rightD)
  with wf have "corners_format b" by (simp add: detections_def list_all_iff)
  then have cw: "clockwise_from_top_left (corners b)" by (rule corners_clockwise)
  have len: "length (corners b) = 4" by (simp add: corners_def Let_def)
  show ?thesis using ts cw len by (simp add: dd prediction_of_def)
qed

text \<open>
  C5. A call of \<^verbatim>\<open>ObjectDetectionPipeline.__call__\<close> with a threshold \<open>t\<close>, given or the
  default 0.9, returns where the images load and \<^verbatim>\<open>post_process\<close> gives one annotation
  with detections in corners format for each image. For a single image the result is a
  list of dictionaries, for a list of \<open>n\<close> images a list of \<open>n\<close> lists of dictionaries; the
  dictionaries of an image are, in order, those of the detections of its annotation whose
  score is greater than the threshold in float32; every dictionary has exactly the keys
  score, label, box; its score is strictly greater than \<open>t\<close>; and its box is a list of four
  corner dictionaries with the keys x and y, in clockwise order starting from the top-left
  corner.
\<close>

theorem ObjectDetectionPipeline_call_result:
  assumes loads: "map_raise (load_image p) (case images of Batch ims \<Rightarrow> ims | Single im \<Rightarrow> [im])
                    = Inr loaded"
    and sizes: "\<forall>im \<in> set loaded. in_int32 (height p im) \<and> in_int32 (width p im)"
    and anns: "annotations = post_process p (model p (feature_extractor p loaded))
                               (map (\<lambda>im. (height p im, width p im)) loaded)"
    and one_each: "length annotations = length loaded"
    and wf: "\<forall>a \<in> set annotations. detections p a"
    and mono: "mono (to_float32 p)"
    and thr: "threshold_arg = None \<and> t = threshold_default \<or> threshold_arg = Some (Some t)"
  shows "\<exists>result. ObjectDetectionPipeline_call p images threshold_arg = Inr result
     \<and> (case images of
          Single _ \<Rightarrow> (\<exists>preds. result = Predictions preds)
        | Batch ims \<Rightarrow> (\<exists>lists. result = PredictionLists lists \<and> length lists = length ims))
     \<and> prediction_lists result
         = map (\<lambda>a. map (prediction_of p) (detections_above (to_float32 p t) a)) annotations
     \<and> (\<forall>preds \<in> set (prediction_lists result). \<forall>pred \<in> set preds.
           map fst pred = [''score'', ''label'', ''box'']
           \<and> (\<exists>s. map_of pred ''score'' = Some (Score s) \<and> t < s)
           \<and> (\<exists>name. map_of pred ''label'' = Some (Label name))
           \<and> (\<exists>vs. map_of pred ''box'' = Some (Box vs) \<and> length vs = 4
                   \<and> clockwise_from_top_left vs))"
proof -
  let ?imgs = "case images of Batch ims \<Rightarrow> ims | Single im \<Rightarrow> [im]"
  let ?lists = "map (\<lambda>a. map (prediction_of p) (detections_above (to_float32 p t) a)) annotations"
  let ?result = "case images of Batch _ \<Rightarrow> PredictionLists ?lists
                 | Single _ \<Rightarrow> Predictions (hd ?lists)"
  have len_loaded: "length loaded = length ?imgs"
    using map_raise_Inr [OF loads] by (simp add: list_all2_lengthD)
  then have len_lists: "length ?lists = length ?imgs" using one_each by simp
  have thr': "(case threshold_arg of None \<Rightarrow> Some threshold_default | Some given \<Rightarrow> given) = Some t"
    using thr by auto
  have single: "?lists = [hd ?lists]" if "images = Single im" for im
  proof -
    from that len_lists have "length ?lists = 1" by simp
    then show ?thesis by (cases ?lists) simp_all
  qed
  have "ObjectDetectionPipeline_call p images threshold_arg
     = (let lists = ?lists
        in case images of
             Batch _ \<Rightarrow> Inr (PredictionLists lists)
           | Single _ \<Rightarrow> (case lists of [] \<Rightarrow> Inl IndexError | a # _ \<Rightarrow> Inr (Predictions a)))"
    using loads _ anns _ thr'
    by (rule ObjectDetectionPipeline_call_eq) (use sizes wf in blast)+
  then have call: "ObjectDetectionPipeline_call p images threshold_arg = Inr ?result"
  proof (cases images)
    case (Single im)
    assume c: "ObjectDetectionPipeline_call p images threshold_arg
     = (let lists = ?lists
        in case images of
             Batch _ \<Rightarrow> Inr (PredictionLists lists)
           | Single _ \<Rightarrow> (case lists of [] \<Rightarrow> Inl IndexError | a # _ \<Rightarrow> Inr (Predictions a)))"
    from single [OF Single] have ne: "?lists \<noteq> []" by (metis list.distinct(1))
    show ?thesis unfolding c Let_def using Single ne by (simp split: list.splits)
  next
    case (Batch ims)
    assume c: "ObjectDetectionPipeline_call p images threshold_arg
     = (let lists = ?lists
        in case images of
             Batch _ \<Rightarrow> Inr (PredictionLists lists)
           | Single _ \<Rightarrow> (case lists of [] \<Rightarrow> Inl IndexError | a # _ \<Rightarrow> Inr (Predictions a)))"
    show ?thesis unfolding c Let_def using Batch by simp
  qed
  have shape: "case images of
          Single _ \<Rightarrow> (\<exists>preds. ?result = Predictions preds)
        | Batch ims \<Rightarrow> (\<exists>lists. ?result = PredictionLists lists \<and> length lists = length ims)"
    using len_lists by (cases images) simp_all
  have pl: "prediction_lists ?result = ?lists"
  proof (cases images)
    case (Single im)
    from single [OF Single] have "[hd ?lists] = ?lists" by simp
    then show ?thesis using Single by simp
  next
    case (Batch ims)
    then show ?thesis by simp
  qed
  have each: "\<forall>preds \<in> set (prediction_lists ?result). \<forall>pred \<in> set preds.
           map fst pred = [''score'', ''label'', ''box'']
           \<and> (\<exists>s. map_of pred ''score'' = Some (Score s) \<and> t < s)
           \<and> (\<exists>name. map_of pred ''label'' = Some (Label name))
           \<and> (\<exists>vs. map_of pred ''box'' = Some (Box vs) \<and> length vs = 4
                   \<and> clockwise_from_top_left vs)"
  proof (intro ballI)
    fix preds pred
    assume "preds \<in> set (prediction_lists ?result)" and pr: "pred \<in> set preds"
    then have "preds \<in> set ?lists" by (simp only: pl)
    then obtain a where a: "a \<in> set annotations"
      and preds: "preds = map (prediction_of p) (detections_above (to_float32 p t) a)"
      by auto
    from pr preds obtain d where d: "d \<in> set (detections_above (to_float32 p t) a)"
      and pred: "pred = prediction_of p d"
      by auto
    from wf a have "detections p a" by blast
    from prediction_of_props [OF this mono d]
    show "map fst pred = [''score'', ''label'', ''box'']
           \<and> (\<exists>s. map_of pred ''score'' = Some (Score s) \<and> t < s)
           \<and> (\<exists>name. map_of pred ''label'' = Some (Label name))
           \<and> (\<exists>vs. map_of pred ''box'' = Some (Box vs) \<and> length vs = 4
                   \<and> clockwise_from_top_left vs)"
      by (simp only: pred)
  qed
  show ?thesis
    by (rule exI [of _ ?result]) (intro conjI call shape pl each)
qed

lemma round_to_24_bits_mono: "mono round_to_24_bits"
proof (rule monoI)
  fix x y :: rat
  assume "x \<le> y"
  then have "x * 16777216 \<le> y * 16777216" by simp
  then have "round (x * 16777216) \<le> round (y * 16777216)" by (rule round_mono)
  then have "(of_int (round (x * 16777216)) :: rat) \<le> of_int (round (y * 16777216))"
    by (simp only: of_int_le_iff)
  then show "round_to_24_bits x \<le> round_to_24_bits y"
    by (simp add: round_to_24_bits_def divide_right_mono)
qed

lemma example_detector_mono: "mono (to_float32 example_detector)"
  by (simp add: example_detector_def round_to_24_bits_mono)

lemma example_single_loads:
  "map_raise (load_image example_detector)
     (case Single (Str ''cat.png'') of Batch ims \<Rightarrow> ims | Single im \<Rightarrow> [im])
   = Inr [(100, 200)]"
  by code_simp

lemma example_single_sizes:
  "\<forall>im \<in> set [(100, 200)].
     in_int32 (height example_detector im) \<and> in_int32 (width example_detector im)"
  by code_simp

lemma example_single_one_each:
  "length (post_process example_detector (model example_detector (feature_extractor example_detector [(100, 200)]))
        (map (\<lambda>im. (height example_detector im, width example_detector im)) [(100, 200)]))
   = length [(100, 200)]"
  by code_simp

lemma example_single_detections:
  "\<forall>a \<in> set (post_process example_detector (model example_detector (feature_extractor example_detector [(100, 200)]))
        (map (\<lambda>im. (height example_detector im, width example_detector im)) [(100, 200)])).
     detections example_detector a"
  by code_simp

lemma example_single_lists:
  "map (\<lambda>a. map (prediction_of example_detector)
               (detections_above (to_float32 example_detector (threshold_default)) a))
     (post_process example_detector (model example_detector (feature_extractor example_detector [(100, 200)]))
        (map (\<lambda>im. (height example_detector im, width example_detector im)) [(100, 200)]))
   = [[example_cat 200 100, example_car]]"
  by code_simp

lemma example_batch_loads:
  "map_raise (load_image example_detector)
     (case Batch [Str ''cat.png'', Image (5, 6)] of Batch ims \<Rightarrow> ims | Single im \<Rightarrow> [im])
   = Inr [(100, 200), (5, 6)]"
  by code_simp

lemma example_batch_sizes:
  "\<forall>im \<in> set [(100, 200), (5, 6)].
     in_int32 (height example_detector im) \<and> in_int32 (width example_detector im)"
  by code_simp

lemma example_batch_one_each:
  "length (post_process example_detector (model example_detector (feature_extractor example_detector [(100, 200), (5, 6)]))
        (map (\<lambda>im. (height example_detector im, width example_detector im)) [(100, 200), (5, 6)]))
   = length [(100, 200), (5, 6)]"
  by code_simp

lemma example_batch_detections:
  "\<forall>a \<in> set (post_process example_detector (model example_detector (feature_extractor example_detector [(100, 200), (5, 6)]))
        (map (\<lambda>im. (height example_detector im, width example_detector im)) [(100, 200), (5, 6)])).
     detections example_detector a"
  by code_simp

lemma example_batch_lists:
  "map (\<lambda>a. map (prediction_of example_detector)
               (detections_above (to_float32 example_detector (1 / 2)) a))
     (post_process example_detector (model example_detector (feature_extractor example_detector [(100, 200), (5, 6)]))
        (map (\<lambda>im. (height example_detector im, width example_detector im)) [(100, 200), (5, 6)]))
   = [[example_cat 200 100, example_person, example_car],
      [example_cat 6 5, example_person, example_car]]"
  by code_simp

lemma example_float32_loads:
  "map_raise (load_image example_detector)
     (case Batch [Image (5, 6)] of Batch ims \<Rightarrow> ims | Single im \<Rightarrow> [im])
   = Inr [(5, 6)]"
  by code_simp

lemma example_float32_sizes:
  "\<forall>im \<in> set [(5, 6)].
     in_int32 (height example_detector im) \<and> in_int32 (width example_detector im)"
  by code_simp

lemma example_float32_one_each:
  "length (post_process example_detector (model example_detector (feature_extractor example_detector [(5, 6)]))
        (map (\<lambda>im. (height example_detector im, width example_detector im)) [(5, 6)]))
   = length [(5, 6)]"
  by code_simp

lemma example_float32_detections:
  "\<forall>a \<in> set (post_process example_detector (model example_detector (feature_extractor example_detector [(5, 6)]))
        (map (\<lambda>im. (height example_detector im, width example_detector im)) [(5, 6)])).
     detections example_detector a"
  by code_simp

lemma example_float32_lists:
  "map (\<lambda>a. map (prediction_of example_detector)
               (detections_above (to_float32 example_detector (5404319552844595 / 9007199254740992)) a))
     (post_process example_detector (model example_detector (feature_extractor example_detector [(5, 6)]))
        (map (\<lambda>im. (height example_detector im, width example_detector im)) [(5, 6)]))
   = [[example_cat 6 5, example_car]]"
  by code_simp

theorem ObjectDetectionPipeline_call_result_witness:
  "ObjectDetectionPipeline_call example_detector (Single (Str ''cat.png'')) (None)
     = Inr (Predictions [example_cat 200 100, example_car])
   \<and> ObjectDetectionPipeline_call example_detector (Batch [Str ''cat.png'', Image (5, 6)]) (Some (Some (1 / 2)))
     = Inr (PredictionLists
          [[example_cat 200 100, example_person, example_car],
          [example_cat 6 5, example_person, example_car]])
   \<and> ObjectDetectionPipeline_call example_detector (Batch [Image (5, 6)]) (Some (Some (5404319552844595 / 9007199254740992)))
     = Inr (PredictionLists
          [[example_cat 6 5, example_car]])"
proof (intro conjI)
  have thr: "None = None \<and> threshold_default = threshold_default
             \<or> None = Some (Some (threshold_default))"
    by simp
  from ObjectDetectionPipeline_call_result
    [OF example_single_loads example_single_sizes refl example_single_one_each
        example_single_detections example_detector_mono thr]
  obtain result
    where call: "ObjectDetectionPipeline_call example_detector (Single (Str ''cat.png''))
                   (None) = Inr result"
      and shape: "case (Single (Str ''cat.png'') :: (int \<times> int) image_arg images_arg) of
                    Single _ \<Rightarrow> (\<exists>preds. result = Predictions preds)
                  | Batch ims \<Rightarrow>
                      (\<exists>lists. result = PredictionLists lists \<and> length lists = length ims)"
      and lists: "prediction_lists result
         = map (\<lambda>a. map (prediction_of example_detector)
               (detections_above (to_float32 example_detector (threshold_default)) a))
             (post_process example_detector (model example_detector (feature_extractor example_detector [(100, 200)]))
        (map (\<lambda>im. (height example_detector im, width example_detector im)) [(100, 200)]))"
    by (elim exE conjE) (rule that)
  from lists have "prediction_lists result
     = [[example_cat 200 100, example_car]]"
    by (simp only: example_single_lists)
  moreover from shape have "\<exists>preds. result = Predictions preds"
    by simp
  ultimately have "result = Predictions [example_cat 200 100, example_car]"
    by auto
  with call show "ObjectDetectionPipeline_call example_detector (Single (Str ''cat.png'')) (None)
     = Inr (Predictions [example_cat 200 100, example_car])"
    by (simp only:)
next
  have thr: "Some (Some (1 / 2)) = None \<and> 1 / 2 = threshold_default
             \<or> Some (Some (1 / 2)) = Some (Some (1 / 2))"
    by simp
  from ObjectDetectionPipeline_call_result
    [OF example_batch_loads example_batch_sizes refl example_batch_one_each
        example_batch_detections example_detector_mono thr]
  obtain result
    where call: "ObjectDetectionPipeline_call example_detector (Batch [Str ''cat.png'', Image (5, 6)])
                   (Some (Some (1 / 2))) = Inr result"
      and shape: "case (Batch [Str ''cat.png'', Image (5, 6)] :: (int \<times> int) image_arg images_arg) of
                    Single _ \<Rightarrow> (\<exists>preds. result = Predictions preds)
                  | Batch ims \<Rightarrow>
                      (\<exists>lists. result = PredictionLists lists \<and> length lists = length ims)"
      and lists: "prediction_lists result
         = map (\<lambda>a. map (prediction_of example_detector)
               (detections_above (to_float32 example_detector (1 / 2)) a))
             (post_process example_detector (model example_detector (feature_extractor example_detector [(100, 200), (5, 6)]))
        (map (\<lambda>im. (height example_detector im, width example_detector im)) [(100, 200), (5, 6)]))"
    by (elim exE conjE) (rule that)
  from lists have "prediction_lists result
     = [[example_cat 200 100, example_person, example_car],
      [example_cat 6 5, example_person, example_car]]"
    by (simp only: example_batch_lists)
  moreover from shape have "\<exists>lists. result = PredictionLists lists"
    by auto
  ultimately have "result = PredictionLists [[example_cat 200 100, example_person, example_car],
      [example_cat 6 5, example_person, example_car]]"
    by auto
  with call show "ObjectDetectionPipeline_call example_detector (Batch [Str ''cat.png'', Image (5, 6)]) (Some (Some (1 / 2)))
     = Inr (PredictionLists
          [[example_cat 200 100, example_person, example_car],
          [example_cat 6 5, example_person, example_car]])"
    by (simp only:)
next
  have thr: "Some (Some (5404319552844595 / 9007199254740992)) = None \<and> 5404319552844595 / 9007199254740992 = threshold_default
             \<or> Some (Some (5404319552844595 / 9007199254740992)) = Some (Some (5404319552844595 / 9007199254740992))"
    by simp
  from ObjectDetectionPipeline_call_result
    [OF example_float32_loads example_float32_sizes refl example_float32_one_each
        example_float32_detections example_detector_mono thr]
  obtain result
    where call: "ObjectDetectionPipeline_call example_detector (Batch [Image (5, 6)])
                   (Some (Some (5404319552844595 / 9007199254740992))) = Inr result"
      and shape: "case (Batch [Image (5, 6)] :: (int \<times> int) image_arg images_arg) of
                    Single _ \<Rightarrow> (\<exists>preds. result = Predictions preds)
                  | Batch ims \<Rightarrow>
                      (\<exists>lists. result = PredictionLists lists \<and> length lists = length ims)"
      and lists: "prediction_lists result
         = map (\<lambda>a. map (prediction_of example_detector)
               (detections_above (to_float32 example_detector (5404319552844595 / 9007199254740992)) a))
             (post_process example_detector (model example_detector (feature_extractor example_detector [(5, 6)]))
        (map (\<lambda>im. (height example_detector im, width example_detector im)) [(5, 6)]))"
    by (elim exE conjE) (rule that)
  from lists have "prediction_lists result
     = [[example_cat 6 5, example_car]]"
    by (simp only: example_float32_lists)
  moreover from shape have "\<exists>lists. result = PredictionLists lists"
    by auto
  ultimately have "result = PredictionLists [[example_cat 6 5, example_car]]"
    by auto
  with call show "ObjectDetectionPipeline_call example_detector (Batch [Image (5, 6)]) (Some (Some (5404319552844595 / 9007199254740992)))
     = Inr (PredictionLists
          [[example_cat 6 5, example_car]])"
    by (simp only:)
qed

end
